theory Spec2Isabelle
  imports
    Complex_Main
    "HOL-Library.Char_ord"
    "HOL-Library.List_Lexorder"
    "HOL-Library.Multiset"
begin

section \<open>Conventions of the embedding\<close>

text \<open>
  The action is JavaScript (\<^verbatim>\<open>src/setup.js\<close>, \<^verbatim>\<open>src/save.js\<close>, \<^verbatim>\<open>src/utils.js\<close>).
  A JavaScript string is a sequence of UTF-16 code units; it is modelled by \<^typ>\<open>string\<close>,
  that is, by the strings all of whose code units are below 256. The order of
  \<^verbatim>\<open>Char_ord\<close> and \<^verbatim>\<open>List_Lexorder\<close> on such strings is the code-unit order that
  \<^verbatim>\<open>Array.prototype.sort()\<close> uses when it is called without a comparator. A \<^verbatim>\<open>Buffer\<close> is a
  list of bytes, also written as a \<^typ>\<open>string\<close>.

  A call that can throw returns a sum: \<open>Inl\<close> carries the exception.
\<close>

type_synonym buffer = string

datatype error =
    TypeError string
  | IOError string
  | ApiError string

fun message :: "error \<Rightarrow> string" where
  "message (TypeError m) = m"
| "message (IOError m) = m"
| "message (ApiError m) = m"

section \<open>The cache key (\<^verbatim>\<open>buildCacheKey\<close>)\<close>

text \<open>
  The file system is a partial map from paths to contents; \<^verbatim>\<open>fs.readFileSync(f)\<close> throws
  when the path cannot be read.
\<close>

type_synonym filesystem = "string \<Rightarrow> buffer option"

definition readFileSync :: "filesystem \<Rightarrow> string \<Rightarrow> error + buffer" where
  "readFileSync fs f = (case fs f of None \<Rightarrow> Inl (IOError f) | Some d \<Rightarrow> Inr d)"

text \<open>
  \<^verbatim>\<open>crypto.createHash("sha256")\<close> is an object that absorbs the buffers given to
  \<^verbatim>\<open>update\<close>; \<^verbatim>\<open>digest("hex")\<close> is the SHA-256 digest, in hexadecimal, of everything
  absorbed. The digest function belongs to Node's \<^verbatim>\<open>crypto\<close> module and is a parameter
  \<open>sha256_hex\<close> of the model.
\<close>

type_synonym hasher = buffer

definition createHash :: hasher where
  "createHash = []"

definition update :: "hasher \<Rightarrow> buffer \<Rightarrow> hasher" where
  "update h d = h @ d"

definition digest_hex :: "(buffer \<Rightarrow> string) \<Rightarrow> hasher \<Rightarrow> string" where
  "digest_hex sha256_hex h = sha256_hex h"

text \<open>The loop \<^verbatim>\<open>for (const f of lockfiles.sort()) hasher.update(fs.readFileSync(f))\<close>.\<close>

fun hash_lockfiles :: "filesystem \<Rightarrow> string list \<Rightarrow> hasher \<Rightarrow> error + hasher" where
  "hash_lockfiles fs [] h = Inr h"
| "hash_lockfiles fs (f # rest) h =
     (case readFileSync fs f of
        Inl e \<Rightarrow> Inl e
      | Inr d \<Rightarrow> hash_lockfiles fs rest (update h d))"

record cache_key_descriptor =
  key :: string
  restoreKeys :: "string list"

text \<open>
  \<^verbatim>\<open>buildCacheKey\<close> reads the input \<^verbatim>\<open>cache-key-prefix\<close> (\<open>prefixInput\<close>, the empty string
  when it is not given), \<^verbatim>\<open>os.platform()\<close>, \<^verbatim>\<open>os.arch()\<close>, the environment variable
  \<^verbatim>\<open>KACHE_VERSION\<close> (\<open>None\<close> when unset) and the paths the glob \<^verbatim>\<open>**/Cargo.lock\<close> found
  (\<open>lockfiles\<close>, in discovery order).
\<close>

definition buildCacheKey ::
  "(buffer \<Rightarrow> string) \<Rightarrow> filesystem \<Rightarrow> string \<Rightarrow> string \<Rightarrow> string \<Rightarrow> string option \<Rightarrow>
   string list \<Rightarrow> error + cache_key_descriptor" where
  "buildCacheKey sha256_hex fs prefixInput osPlatform osArch envVersion lockfiles =
    (let prefix = (if prefixInput \<noteq> [] then prefixInput else ''kache'');
         platform = osPlatform @ ''-'' @ osArch;
         kacheVersion = (case envVersion of
                           None \<Rightarrow> ''unknown''
                         | Some v \<Rightarrow> if v \<noteq> [] then v else ''unknown'');
         hashed = (if length lockfiles > 0
                   then (case hash_lockfiles fs (sort lockfiles) createHash of
                           Inl e \<Rightarrow> Inl e
                         | Inr hasher \<Rightarrow> Inr (take 16 (digest_hex sha256_hex hasher)))
                   else Inr ''no-lockfile'')
     in case hashed of
          Inl e \<Rightarrow> Inl e
        | Inr lockHash \<Rightarrow>
            Inr \<lparr> key = prefix @ ''-'' @ kacheVersion @ ''-'' @ platform @ ''-'' @ lockHash,
                  restoreKeys = [prefix @ ''-'' @ kacheVersion @ ''-'' @ platform @ ''-''] \<rparr>)"

text \<open>
  The specification's words for the lock hash: the first 16 characters of the digest of the
  files' contents, concatenated in sorted path order, or the token \<^verbatim>\<open>no-lockfile\<close>.
\<close>

definition lockHash_spec :: "(buffer \<Rightarrow> string) \<Rightarrow> filesystem \<Rightarrow> string list \<Rightarrow> string" where
  "lockHash_spec sha256_hex fs paths =
     (if paths = [] then ''no-lockfile''
      else take 16 (sha256_hex (concat (map (\<lambda>p. the (fs p)) (sort paths)))))"

section \<open>Strings and numbers of the host language\<close>

text \<open>
  The text that the action handles (paths, log lines, comment bodies) is taken to be ASCII;
  the one character outside ASCII in the source's literals, the dash U+2014, is written as
  its three UTF-8 bytes.
\<close>

definition emdash :: string where
  "emdash = [CHR 0xE2, CHR 0x80, CHR 0x94]"

text \<open>\<^verbatim>\<open>String(n)\<close> for a natural number: its decimal digits.\<close>

fun nat_toString :: "nat \<Rightarrow> string" where
  "nat_toString n =
     (if n < 10 then [''0123456789'' ! n]
      else nat_toString (n div 10) @ [''0123456789'' ! (n mod 10)])"

declare nat_toString.simps [simp del]

text \<open>\<^verbatim>\<open>s.includes(t)\<close>: \<open>t\<close> occurs in \<open>s\<close>.\<close>

fun includes_str :: "string \<Rightarrow> string \<Rightarrow> bool" where
  "includes_str [] t = (t = [])"
| "includes_str (c # s) t = (take (length t) (c # s) = t \<or> includes_str s t)"

text \<open>\<^verbatim>\<open>String(i)\<close> for an integer.\<close>

definition int_toString :: "int \<Rightarrow> string" where
  "int_toString i = (if 0 \<le> i then nat_toString (nat i) else CHR ''-'' # nat_toString (nat (- i)))"

text \<open>
  A JavaScript number is an IEEE 754 binary64 value. \<open>Double m e\<close> is the finite,
  non-negative value \<open>m * 2 ^ e\<close>. The arithmetic below rounds the exact result to the nearest
  value with a 53-bit significand, ties to the even significand, as the standard's
  round-to-nearest does for results in the normal range (no overflow to infinity and no
  subnormal result; the quotients and products of counts and of times in milliseconds that the
  action computes are in that range).
\<close>

datatype double = Double nat int

fun double_value :: "double \<Rightarrow> rat" where
  "double_value (Double m e) = of_nat m * 2 ^ nat e / 2 ^ nat (- e)"

text \<open>The number of binary digits of \<open>n\<close>.\<close>

fun bitlen :: "nat \<Rightarrow> nat" where
  "bitlen n = (if n = 0 then 0 else Suc (bitlen (n div 2)))"

declare bitlen.simps [simp del]

text \<open>The integer nearest to \<open>a / b\<close>, the even one of two that are equally near.\<close>

definition round_half_even :: "nat \<Rightarrow> nat \<Rightarrow> nat" where
  "round_half_even a b =
     (let q = a div b; r = a mod b
      in if 2 * r < b then q
         else if b < 2 * r then q + 1
         else if even q then q else q + 1)"

text \<open>
  The double nearest to the exact quotient \<open>a / b\<close>: the exponent \<open>e\<close> is the one for which
  \<open>a / b / 2 ^ e\<close> lies between \<open>2 ^ 52\<close> and \<open>2 ^ 53\<close>.
\<close>

definition round_double :: "nat \<Rightarrow> nat \<Rightarrow> double" where
  "round_double a b =
     (if a = 0 then Double 0 0
      else
        let k = int (bitlen a) - int (bitlen b);
            e = (if b * 2 ^ nat k \<le> a * 2 ^ nat (- k) then k - 52 else k - 53)
        in Double (round_half_even (a * 2 ^ nat (- e)) (b * 2 ^ nat e)) e)"

fun double_div :: "double \<Rightarrow> double \<Rightarrow> double" where
  "double_div (Double m1 e1) (Double m2 e2) =
     round_double (m1 * 2 ^ nat (e1 - e2)) (m2 * 2 ^ nat (e2 - e1))"

fun double_mul :: "double \<Rightarrow> double \<Rightarrow> double" where
  "double_mul (Double m1 e1) (Double m2 e2) =
     round_double (m1 * m2 * 2 ^ nat (e1 + e2)) (2 ^ nat (- (e1 + e2)))"

definition double_of_nat :: "nat \<Rightarrow> double" where
  "double_of_nat n = Double n 0"

text \<open>
  \<^verbatim>\<open>x.toFixed(1)\<close> for a double below \<open>10 ^ 21\<close>: with \<open>n\<close> the integer for which \<open>n / 10\<close> is
  nearest to the exact value of \<open>x\<close>, the larger one of two that are equally near
  (\<open>tenths x\<close>), the digits of \<open>n div 10\<close>, a point and the digit \<open>n mod 10\<close>.
\<close>

fun tenths :: "double \<Rightarrow> nat" where
  "tenths (Double m e) = (20 * m * 2 ^ nat e + 2 ^ nat (- e)) div (2 * 2 ^ nat (- e))"

definition toFixed1 :: "double \<Rightarrow> string" where
  "toFixed1 x = nat_toString (tenths x div 10) @ ''.'' @ nat_toString (tenths x mod 10)"

section \<open>The sticky comment (\<^verbatim>\<open>postOrUpdateComment\<close>)\<close>

datatype log_entry = Info string | Warning string | Failed string

record comment =
  comment_id :: nat
  comment_body :: "string option"

text \<open>
  The discussion API is the state of the pull request's thread, the identifier the server
  gives to the next comment, the requests made so far, and the requests that the server
  rejects (with the error that the client library throws). \<^verbatim>\<open>github.getOctokit(token)\<close>
  makes no request; it throws for a token that the library does not accept.
\<close>

datatype api_call =
    ListComments nat nat
  | UpdateComment nat string
  | CreateComment nat string

record github =
  thread :: "comment list"
  fresh_id :: nat
  calls :: "api_call list"
  rejects :: "api_call \<Rightarrow> error option"
  getOctokit :: "string \<Rightarrow> error option"

text \<open>
  \<^verbatim>\<open>issues.listComments\<close> returns the first page of the thread, of \<^verbatim>\<open>per_page\<close> comments at
  most; \<^verbatim>\<open>issues.updateComment\<close> replaces the body of the comment with the given identifier;
  \<^verbatim>\<open>issues.createComment\<close> appends a comment to the thread. A rejected request changes
  nothing but is a request all the same.
\<close>

definition listComments :: "nat \<Rightarrow> nat \<Rightarrow> github \<Rightarrow> (error + comment list) \<times> github" where
  "listComments issue per_page gh =
     (let gh' = gh\<lparr>calls := calls gh @ [ListComments issue per_page]\<rparr>
      in case rejects gh (ListComments issue per_page) of
           Some e \<Rightarrow> (Inl e, gh')
         | None \<Rightarrow> (Inr (take per_page (thread gh)), gh'))"

definition updateComment :: "nat \<Rightarrow> string \<Rightarrow> github \<Rightarrow> error option \<times> github" where
  "updateComment cid b gh =
     (let gh' = gh\<lparr>calls := calls gh @ [UpdateComment cid b]\<rparr>
      in case rejects gh (UpdateComment cid b) of
           Some e \<Rightarrow> (Some e, gh')
         | None \<Rightarrow>
             (None, gh'\<lparr>thread :=
                map (\<lambda>c. if comment_id c = cid then c\<lparr>comment_body := Some b\<rparr> else c)
                  (thread gh)\<rparr>))"

definition createComment :: "nat \<Rightarrow> string \<Rightarrow> github \<Rightarrow> error option \<times> github" where
  "createComment issue b gh =
     (let gh' = gh\<lparr>calls := calls gh @ [CreateComment issue b]\<rparr>
      in case rejects gh (CreateComment issue b) of
           Some e \<Rightarrow> (Some e, gh')
         | None \<Rightarrow>
             (None, gh'\<lparr>thread := thread gh @ [\<lparr>comment_id = fresh_id gh, comment_body = Some b\<rparr>],
                         fresh_id := Suc (fresh_id gh)\<rparr>))"

definition COMMENT_MARKER :: string where
  "COMMENT_MARKER = ''<!-- kache-action-comment -->''"

text \<open>
  \<^verbatim>\<open>github.context\<close>: the number of the pull request of the payload and the number of
  \<^verbatim>\<open>context.issue\<close>, each \<open>None\<close> when undefined. \<^verbatim>\<open>a || b\<close> is \<open>a\<close> when \<open>a\<close> is truthy (a
  number other than 0) and \<open>b\<close> otherwise.
\<close>

record github_context =
  pull_request_number :: "nat option"
  issue_number :: "nat option"

definition or_number :: "nat option \<Rightarrow> nat option \<Rightarrow> nat option" where
  "or_number a b = (case a of None \<Rightarrow> b | Some n \<Rightarrow> if n \<noteq> 0 then Some n else b)"

text \<open>\<^verbatim>\<open>c.body && c.body.includes(COMMENT_MARKER)\<close>, the predicate of \<^verbatim>\<open>comments.find\<close>.\<close>

definition carries_marker :: "comment \<Rightarrow> bool" where
  "carries_marker c =
     (case comment_body c of
        None \<Rightarrow> False
      | Some b \<Rightarrow> b \<noteq> [] \<and> includes_str b COMMENT_MARKER)"

text \<open>
  The result of \<^verbatim>\<open>postOrUpdateComment\<close>: the exception that escapes it, if any, the messages
  it logs, and the discussion API afterwards.
\<close>

definition postOrUpdateComment ::
  "string \<Rightarrow> string \<Rightarrow> github_context \<Rightarrow> github \<Rightarrow> error option \<times> log_entry list \<times> github" where
  "postOrUpdateComment body token ctx gh =
     (case or_number (pull_request_number ctx) (issue_number ctx) of
        None \<Rightarrow> (None, [Info ''Not a PR context, skipping comment''], gh)
      | Some prNumber \<Rightarrow>
          if prNumber = 0 then (None, [Info ''Not a PR context, skipping comment''], gh)
          else
            let markedBody = COMMENT_MARKER @ [CHR 0x0A] @ body in
            case getOctokit gh token of
              Some e \<Rightarrow> (Some e, [], gh)
            | None \<Rightarrow>
                (case listComments prNumber 100 gh of
                   (Inl e, gh1) \<Rightarrow> (Some e, [], gh1)
                 | (Inr comments, gh1) \<Rightarrow>
                     (case find carries_marker comments of
                        Some existing \<Rightarrow>
                          (case updateComment (comment_id existing) markedBody gh1 of
                             (Some e, gh2) \<Rightarrow> (Some e, [], gh2)
                           | (None, gh2) \<Rightarrow>
                               (None,
                                [Info (''Updated existing PR comment #'' @
                                       nat_toString (comment_id existing))],
                                gh2))
                      | None \<Rightarrow>
                          (case createComment prNumber markedBody gh1 of
                             (Some e, gh2) \<Rightarrow> (Some e, [], gh2)
                           | (None, gh2) \<Rightarrow> (None, [Info ''Posted new PR comment''], gh2)))))"

text \<open>Example states of the discussion API.\<close>

definition plain_comment :: "nat \<Rightarrow> comment" where
  "plain_comment i = \<lparr>comment_id = i, comment_body = Some ''LGTM''\<rparr>"

definition sticky_comment :: "nat \<Rightarrow> string \<Rightarrow> comment" where
  "sticky_comment i b = \<lparr>comment_id = i, comment_body = Some (COMMENT_MARKER @ [CHR 0x0A] @ b)\<rparr>"

definition open_api :: "comment list \<Rightarrow> nat \<Rightarrow> github" where
  "open_api cs next_id =
     \<lparr>thread = cs, fresh_id = next_id, calls = [], rejects = (\<lambda>_. None), getOctokit = (\<lambda>_. None)\<rparr>"

definition pr_context :: "nat \<Rightarrow> github_context" where
  "pr_context n = \<lparr>pull_request_number = Some n, issue_number = Some n\<rparr>"

definition long_thread :: "comment list" where
  "long_thread = map plain_comment [1..<101] @ [sticky_comment 101 ''old'']"

section \<open>The event log (\<^verbatim>\<open>parseEvents\<close>)\<close>

text \<open>
  A call returns a value, throws, or does something that this model leaves open
  (\<open>Unspecified\<close>): an order that the language leaves to the implementation, or the coercion
  of a value that is not of the type the code expects.
\<close>

datatype 'a outcome = Returns 'a | Throws error | Unspecified

text \<open>
  The values that \<^verbatim>\<open>JSON.parse\<close> returns. A number of the log is an integer (a count of
  milliseconds or of bytes); \<open>JNum n\<close> is the double \<open>n\<close>. An object is the list of its
  properties.
\<close>

datatype json =
    JNull
  | JBool bool
  | JNum int
  | JStr string
  | JArr "json list"
  | JObj "(string \<times> json) list"

text \<open>
  \<^verbatim>\<open>e.k\<close> for a value \<open>e\<close> other than \<^verbatim>\<open>null\<close>, for the property names that the code reads
  (none of them is a property of a prototype): \<open>None\<close> is \<^verbatim>\<open>undefined\<close>.
\<close>

fun get_property :: "json \<Rightarrow> string \<Rightarrow> json option" where
  "get_property (JObj kvs) k = map_of kvs k"
| "get_property _ k = None"

fun truthy :: "json \<Rightarrow> bool" where
  "truthy JNull = False"
| "truthy (JBool b) = b"
| "truthy (JNum n) = (n \<noteq> 0)"
| "truthy (JStr s) = (s \<noteq> [])"
| "truthy (JArr _) = True"
| "truthy (JObj _) = True"

text \<open>\<^verbatim>\<open>x || d\<close>.\<close>

definition or_default :: "json option \<Rightarrow> json \<Rightarrow> json" where
  "or_default x d = (case x of None \<Rightarrow> d | Some v \<Rightarrow> if truthy v then v else d)"

record missedCrate =
  name :: "json option"
  elapsed_ms :: json
  size_bytes :: json
  cache_key :: json

record stats =
  total :: nat
  localHits :: nat
  remoteHits :: nat
  hits :: nat
  misses :: nat
  errors :: nat
  hitRate :: string
  missedCrates :: "missedCrate list"

text \<open>The log file: absent, unreadable (\<^verbatim>\<open>readFileSync\<close> throws) or readable.\<close>

datatype log_file = Missing | Unreadable error | Content string

definition is_space :: "char \<Rightarrow> bool" where
  "is_space c = (c \<in> set [CHR 0x09, CHR 0x0A, CHR 0x0B, CHR 0x0C, CHR 0x0D, CHR 0x20, CHR 0xA0])"

definition trim :: "string \<Rightarrow> string" where
  "trim s = rev (dropWhile is_space (rev (dropWhile is_space s)))"

text \<open>\<^verbatim>\<open>s.split(sep)\<close> for a separator of one character.\<close>

fun split_on :: "char \<Rightarrow> string \<Rightarrow> string list" where
  "split_on sep [] = [[]]"
| "split_on sep (c # s) =
     (if c = sep then [] # split_on sep s
      else (case split_on sep s of
              l # ls \<Rightarrow> (c # l) # ls
            | [] \<Rightarrow> [[c]]))"

text \<open>
  The first loop of \<^verbatim>\<open>parseEvents\<close>. \<^verbatim>\<open>JSON.parse\<close> is a parameter: \<open>None\<close> is the
  \<^verbatim>\<open>SyntaxError\<close> that the loop catches.
\<close>

fun parse_lines :: "(string \<Rightarrow> json option) \<Rightarrow> string list \<Rightarrow> json list \<Rightarrow> json list" where
  "parse_lines JSON_parse [] events = events"
| "parse_lines JSON_parse (line # rest) events =
     (if trim line = [] then parse_lines JSON_parse rest events
      else (case JSON_parse line of
              Some v \<Rightarrow> parse_lines JSON_parse rest (events @ [v])
            | None \<Rightarrow> parse_lines JSON_parse rest events))"

text \<open>
  The second loop: the counters \<^verbatim>\<open>localHits\<close>, \<^verbatim>\<open>remoteHits\<close>, \<^verbatim>\<open>misses\<close>, \<^verbatim>\<open>errors\<close> and the
  array \<^verbatim>\<open>missedCrates\<close>. Reading \<^verbatim>\<open>e.result\<close> of \<^verbatim>\<open>null\<close> throws.
\<close>

type_synonym tally = "nat \<times> nat \<times> nat \<times> nat \<times> missedCrate list"

fun count_events :: "json list \<Rightarrow> tally \<Rightarrow> error + tally" where
  "count_events [] acc = Inr acc"
| "count_events (e # es) (l, r, m, er, mc) =
     (if e = JNull
      then Inl (TypeError ''Cannot read properties of null (reading 'result')'')
      else if get_property e ''result'' = Some (JStr ''local_hit'') then count_events es (l + 1, r, m, er, mc)
      else if get_property e ''result'' = Some (JStr ''remote_hit'') then count_events es (l, r + 1, m, er, mc)
      else if get_property e ''result'' = Some (JStr ''miss'')
        then count_events es
               (l, r, m + 1, er,
                mc @ [\<lparr> name = get_property e ''crate_name'',
                         elapsed_ms = or_default (get_property e ''elapsed_ms'') (JNum 0),
                         size_bytes = or_default (get_property e ''size'') (JNum 0),
                         cache_key = or_default (get_property e ''cache_key'') (JStr []) \<rparr>])
      else if get_property e ''result'' = Some (JStr ''error'') then count_events es (l, r, m, er + 1, mc)
      else count_events es (l, r, m, er, mc))"

text \<open>
  \<^verbatim>\<open>Array.prototype.sort(comparefn)\<close> is stable. For a comparator that orders the elements
  consistently every stable sort returns the same array; it is computed here by insertion,
  an element going before the first element that it does not sort after.
\<close>

fun insert_sorted :: "('a \<Rightarrow> 'a \<Rightarrow> int) \<Rightarrow> 'a \<Rightarrow> 'a list \<Rightarrow> 'a list" where
  "insert_sorted comparefn x [] = [x]"
| "insert_sorted comparefn x (y # ys) =
     (if comparefn x y \<le> 0 then x # y # ys else y # insert_sorted comparefn x ys)"

definition Array_sort :: "('a \<Rightarrow> 'a \<Rightarrow> int) \<Rightarrow> 'a list \<Rightarrow> 'a list" where
  "Array_sort comparefn xs = foldr (insert_sorted comparefn) xs []"

fun is_number :: "json \<Rightarrow> bool" where
  "is_number (JNum n) = True"
| "is_number _ = False"

fun number_value :: "json \<Rightarrow> int" where
  "number_value (JNum n) = n"
| "number_value _ = 0"

text \<open>
  \<^verbatim>\<open>missedCrates.sort((a, b) => b.elapsed_ms - a.elapsed_ms)\<close>. An array of one element at most
  is returned as it is. When a time is not a number the subtraction coerces it and may give
  \<^verbatim>\<open>NaN\<close>; the comparator is then not consistent and the language leaves the order to the
  implementation. The engine returns some array there, which this model does not
  determine (\<open>Unspecified\<close>): what is proved of the order is proved of logs whose times are
  numbers, as they are in every outcome record.
\<close>

definition sort_missedCrates :: "missedCrate list \<Rightarrow> missedCrate list outcome" where
  "sort_missedCrates mc =
     (if length mc \<le> 1 then Returns mc
      else if list_all (\<lambda>c. is_number (elapsed_ms c)) mc
        then Returns (Array_sort (\<lambda>a b. number_value (elapsed_ms b) - number_value (elapsed_ms a)) mc)
      else Unspecified)"

abbreviation (input) elapsed :: "missedCrate \<Rightarrow> int" where
  "elapsed c \<equiv> number_value (elapsed_ms c)"

text \<open>The rest of \<^verbatim>\<open>parseEvents\<close>, from the counters to the object returned.\<close>

definition aggregate :: "json list \<Rightarrow> stats outcome" where
  "aggregate events =
     (case count_events events (0, 0, 0, 0, []) of
        Inl err \<Rightarrow> Throws err
      | Inr (localHits', remoteHits', misses', errors', missedCrates') \<Rightarrow>
          let total' = localHits' + remoteHits' + misses';
              hits' = localHits' + remoteHits';
              hitRate' = (if total' > 0
                          then toFixed1 (double_mul
                                 (double_div (double_of_nat hits') (double_of_nat total'))
                                 (double_of_nat 100))
                          else ''0.0'')
          in case sort_missedCrates missedCrates' of
               Returns sorted' \<Rightarrow>
                 Returns \<lparr> total = total', localHits = localHits', remoteHits = remoteHits',
                           hits = hits', misses = misses', errors = errors', hitRate = hitRate',
                           missedCrates = sorted' \<rparr>
             | Throws err \<Rightarrow> Throws err
             | Unspecified \<Rightarrow> Unspecified)"

text \<open>\<^verbatim>\<open>parseEvents\<close>: \<open>None\<close> is the \<^verbatim>\<open>null\<close> that it returns when there is nothing to report.\<close>

definition parseEvents :: "(string \<Rightarrow> json option) \<Rightarrow> log_file \<Rightarrow> stats option outcome" where
  "parseEvents JSON_parse logfile =
     (case logfile of
        Missing \<Rightarrow> Returns None
      | Unreadable err \<Rightarrow> Throws err
      | Content raw \<Rightarrow>
          let content = trim raw in
          if content = [] then Returns None
          else
            let events = parse_lines JSON_parse (split_on (CHR 0x0A) content) [] in
            if length events = 0 then Returns None
            else (case aggregate events of
                    Returns st \<Rightarrow> Returns (Some st)
                  | Throws err \<Rightarrow> Throws err
                  | Unspecified \<Rightarrow> Unspecified))"

text \<open>
  The specification's words for the records of a log: the values decoded from the lines of
  the trimmed text that are not blank and that decode, in the order of the lines.
\<close>

definition decodable_records :: "(string \<Rightarrow> json option) \<Rightarrow> string \<Rightarrow> json list" where
  "decodable_records JSON_parse raw =
     List.map_filter JSON_parse
       (filter (\<lambda>l. trim l \<noteq> []) (split_on (CHR 0x0A) (trim raw)))"

text \<open>What \<^verbatim>\<open>parseEvents\<close> makes of the result of the aggregation.\<close>

fun reported :: "stats outcome \<Rightarrow> stats option outcome" where
  "reported (Returns st) = Returns (Some st)"
| "reported (Throws err) = Throws err"
| "reported Unspecified = Unspecified"

text \<open>
  The specification's outcome record (its data model and the format of the event log): an
  object whose \<^verbatim>\<open>result\<close> is one of the four results, whose \<^verbatim>\<open>crate_name\<close> and \<^verbatim>\<open>cache_key\<close>,
  when present, are strings, and whose \<^verbatim>\<open>elapsed_ms\<close> and \<^verbatim>\<open>size\<close>, when present, are
  non-negative integers.
\<close>

fun string_field :: "json option \<Rightarrow> bool" where
  "string_field None = True"
| "string_field (Some (JStr s)) = True"
| "string_field (Some _) = False"

fun count_field :: "json option \<Rightarrow> bool" where
  "count_field None = True"
| "count_field (Some (JNum n)) = (0 \<le> n)"
| "count_field (Some _) = False"

fun outcome_record :: "json \<Rightarrow> bool" where
  "outcome_record (JObj kvs) =
     (map_of kvs ''result'' \<in> Some ` JStr ` {''local_hit'', ''remote_hit'', ''miss'', ''error''}
      \<and> string_field (map_of kvs ''crate_name'')
      \<and> count_field (map_of kvs ''elapsed_ms'')
      \<and> count_field (map_of kvs ''size'')
      \<and> string_field (map_of kvs ''cache_key''))"
| "outcome_record _ = False"

text \<open>The entry that the second loop pushes for a miss, and the misses of a log in order.\<close>

definition miss_entry :: "json \<Rightarrow> missedCrate" where
  "miss_entry e =
     \<lparr> name = get_property e ''crate_name'',
       elapsed_ms = or_default (get_property e ''elapsed_ms'') (JNum 0),
       size_bytes = or_default (get_property e ''size'') (JNum 0),
       cache_key = or_default (get_property e ''cache_key'') (JStr []) \<rparr>"

definition has_result :: "string \<Rightarrow> json \<Rightarrow> bool" where
  "has_result r e = (get_property e ''result'' = Some (JStr r))"

definition misses_of :: "json list \<Rightarrow> missedCrate list" where
  "misses_of events = map miss_entry (filter (has_result ''miss'') events)"

text \<open>Example events.\<close>

definition hit_event :: "string \<Rightarrow> json" where
  "hit_event r = JObj [(''result'', JStr r), (''crate_name'', JStr ''dep'')]"

definition miss_event :: "string \<Rightarrow> int \<Rightarrow> int \<Rightarrow> json" where
  "miss_event n t sz =
     JObj [(''result'', JStr ''miss''), (''crate_name'', JStr n),
           (''elapsed_ms'', JNum t), (''size'', JNum sz)]"

fun is_string :: "json \<Rightarrow> bool" where
  "is_string (JStr s) = True"
| "is_string _ = False"

text \<open>
  \<^verbatim>\<open>JSON.parse\<close> on the lines of the example logs: two lines that decode, to the objects that
  they denote, and a \<^verbatim>\<open>SyntaxError\<close> for the torn lines.
\<close>

definition example_parse :: "string \<Rightarrow> json option" where
  "example_parse l =
     (if l = ''{\"result\":\"local_hit\"}'' then Some (JObj [(''result'', JStr ''local_hit'')])
      else if l = ''{\"result\":\"error\"}'' then Some (JObj [(''result'', JStr ''error'')])
      else None)"


definition error_log :: string where
  "error_log = ''{\"result\":\"error\"}'' @ [CHR 0x0A]"

text \<open>
  The scenario of the specification: seven local hits, two remote hits and one miss of 4200
  milliseconds and 1048576 bytes.
\<close>

definition scenario_events :: "json list" where
  "scenario_events =
     [hit_event ''local_hit'', hit_event ''local_hit'', hit_event ''local_hit'',
      hit_event ''local_hit'', hit_event ''local_hit'', hit_event ''local_hit'',
      hit_event ''local_hit'', hit_event ''remote_hit'', hit_event ''remote_hit'',
      miss_event ''foo'' 4200 1048576]"

definition scenario_stats :: stats where
  "scenario_stats =
     \<lparr> total = 10, localHits = 7, remoteHits = 2, hits = 9, misses = 1, errors = 0,
       hitRate = ''90.0'',
       missedCrates = [\<lparr> name = Some (JStr ''foo''), elapsed_ms = JNum 4200,
                         size_bytes = JNum 1048576, cache_key = JStr [] \<rparr>] \<rparr>"

text \<open>A log with ties, a miss without a time, and a log whose miss has a time that is a string.\<close>

definition tied_events :: "json list" where
  "tied_events =
     [miss_event ''a'' 5 1, hit_event ''local_hit'', miss_event ''b'' 7 2, miss_event ''c'' 5 3,
      JObj [(''result'', JStr ''miss''), (''crate_name'', JStr ''d'')], miss_event ''e'' 7 0]"

definition tied_misses :: "missedCrate list" where
  "tied_misses =
     [\<lparr> name = Some (JStr ''b''), elapsed_ms = JNum 7, size_bytes = JNum 2, cache_key = JStr [] \<rparr>,
      \<lparr> name = Some (JStr ''e''), elapsed_ms = JNum 7, size_bytes = JNum 0, cache_key = JStr [] \<rparr>,
      \<lparr> name = Some (JStr ''a''), elapsed_ms = JNum 5, size_bytes = JNum 1, cache_key = JStr [] \<rparr>,
      \<lparr> name = Some (JStr ''c''), elapsed_ms = JNum 5, size_bytes = JNum 3, cache_key = JStr [] \<rparr>,
      \<lparr> name = Some (JStr ''d''), elapsed_ms = JNum 0, size_bytes = JNum 0, cache_key = JStr [] \<rparr>]"

definition tied_stats :: stats where
  "tied_stats =
     \<lparr> total = 6, localHits = 1, remoteHits = 0, hits = 1, misses = 5, errors = 0,
       hitRate = ''16.7'', missedCrates = tied_misses \<rparr>"

definition untyped_event :: json where
  "untyped_event =
     JObj [(''result'', JStr ''miss''), (''crate_name'', JStr ''foo''), (''elapsed_ms'', JStr ''slow'')]"

section \<open>The report (\<^verbatim>\<open>formatMs\<close>, \<^verbatim>\<open>formatBytes\<close>, \<^verbatim>\<open>buildStatsMarkdown\<close>)\<close>

text \<open>
  \<^verbatim>\<open>formatMs\<close> and \<^verbatim>\<open>formatBytes\<close> for an integer (of absolute value below \<open>2 ^ 53\<close>, so that it
  is a double). \<^verbatim>\<open>Math.floor(Math.log(bytes) / Math.log(1024))\<close> is taken to be the exact
  integer logarithm to the base 1024; \<^verbatim>\<open>Math.log\<close> is an approximation that the language
  leaves to the implementation, and the quotient of the two approximations can reach the
  next integer for a size just below a large power of 1024 (the three sizes below \<open>2 ^ 50\<close>),
  where the index of the code is one more than the index here; the sizes of the examples
  below are far from these. \<^verbatim>\<open>Math.pow(1024, i)\<close> is a power of two and exact. An element
  of \<^verbatim>\<open>units\<close> beyond its end is \<^verbatim>\<open>undefined\<close> and prints as such; the logarithm of a negative
  number is \<^verbatim>\<open>NaN\<close>, which every later step keeps.
\<close>

definition formatMs :: "int \<Rightarrow> string" where
  "formatMs ms =
     (if ms < 1000 then int_toString ms @ ''ms''
      else toFixed1 (double_div (double_of_nat (nat ms)) (double_of_nat 1000)) @ ''s'')"

definition units :: "string list" where
  "units = [''B'', ''KB'', ''MB'', ''GB'']"

fun floor_log_1024 :: "nat \<Rightarrow> nat" where
  "floor_log_1024 n = (if n < 1024 then 0 else Suc (floor_log_1024 (n div 1024)))"

declare floor_log_1024.simps [simp del]

definition unit_at :: "nat \<Rightarrow> string" where
  "unit_at i = (if i < length units then units ! i else ''undefined'')"

definition formatBytes :: "int \<Rightarrow> string" where
  "formatBytes bytes =
     (if bytes = 0 then ''0 B''
      else if bytes < 0 then ''NaN undefined''
      else
        let i = floor_log_1024 (nat bytes)
        in toFixed1 (double_div (double_of_nat (nat bytes)) (double_of_nat (1024 ^ i)))
           @ '' '' @ unit_at i)"

text \<open>Sequencing of calls that may throw.\<close>

fun and_then :: "'a outcome \<Rightarrow> ('a \<Rightarrow> 'b outcome) \<Rightarrow> 'b outcome" where
  "and_then (Returns x) f = f x"
| "and_then (Throws err) f = Throws err"
| "and_then Unspecified f = Unspecified"

text \<open>
  The cells of a row of the table of misses. A name in a template literal is converted to a
  string; a time and a size go through \<^verbatim>\<open>formatMs\<close> and \<^verbatim>\<open>formatBytes\<close>; a truthy key is cut to
  its first 12 characters by \<^verbatim>\<open>slice\<close>, which only strings and arrays have.
\<close>

fun name_cell :: "json option \<Rightarrow> string outcome" where
  "name_cell None = Returns ''undefined''"
| "name_cell (Some JNull) = Returns ''null''"
| "name_cell (Some (JBool b)) = Returns (if b then ''true'' else ''false'')"
| "name_cell (Some (JNum n)) = Returns (int_toString n)"
| "name_cell (Some (JStr s)) = Returns s"
| "name_cell (Some (JArr xs)) = Unspecified"
| "name_cell (Some (JObj kvs)) = Unspecified"

fun time_cell :: "json \<Rightarrow> string outcome" where
  "time_cell (JNum n) = Returns (formatMs n)"
| "time_cell _ = Unspecified"

fun size_cell :: "json \<Rightarrow> string outcome" where
  "size_cell (JNum n) = Returns (formatBytes n)"
| "size_cell _ = Unspecified"

fun key_cell :: "json \<Rightarrow> string outcome" where
  "key_cell (JStr s) = Returns (if s \<noteq> [] then ''`'' @ take 12 s @ ''` '' else [])"
| "key_cell JNull = Returns []"
| "key_cell (JBool b) =
     (if b then Throws (TypeError ''c.cache_key.slice is not a function'') else Returns [])"
| "key_cell (JNum n) =
     (if n \<noteq> 0 then Throws (TypeError ''c.cache_key.slice is not a function'') else Returns [])"
| "key_cell (JArr xs) = Unspecified"
| "key_cell (JObj kvs) = Throws (TypeError ''c.cache_key.slice is not a function'')"

definition miss_row :: "bool \<Rightarrow> missedCrate \<Rightarrow> string outcome" where
  "miss_row hasKeys c =
     (if hasKeys
      then and_then (key_cell (cache_key c)) (\<lambda>k.
           and_then (name_cell (name c)) (\<lambda>n.
           and_then (time_cell (elapsed_ms c)) (\<lambda>t.
           and_then (size_cell (size_bytes c)) (\<lambda>s.
             Returns (''| `'' @ n @ ''` | '' @ t @ '' | '' @ s @ '' | '' @ k @ ''|'')))))
      else and_then (name_cell (name c)) (\<lambda>n.
           and_then (time_cell (elapsed_ms c)) (\<lambda>t.
           and_then (size_cell (size_bytes c)) (\<lambda>s.
             Returns (''| `'' @ n @ ''` | '' @ t @ '' | '' @ s @ '' |'')))))"

text \<open>The loop \<^verbatim>\<open>for (const c of top) lines.push(...)\<close>.\<close>

fun push_rows :: "bool \<Rightarrow> missedCrate list \<Rightarrow> string list \<Rightarrow> string list outcome" where
  "push_rows hasKeys [] lines = Returns lines"
| "push_rows hasKeys (c # rest) lines =
     and_then (miss_row hasKeys c) (\<lambda>row. push_rows hasKeys rest (lines @ [row]))"

definition table_header :: "bool \<Rightarrow> string list" where
  "table_header hasKeys =
     (if hasKeys
      then [''| Crate | Compile time | Size | Key |'', ''|-------|-------------|------|-----|'']
      else [''| Crate | Compile time | Size |'', ''|-------|-------------|------|''])"

definition more_row :: "bool \<Rightarrow> nat \<Rightarrow> string" where
  "more_row hasKeys n =
     (let cols = (if hasKeys then 4 else 3 :: nat);
          empties = concat (replicate (cols - 1) ''| '')
      in ''| *... '' @ nat_toString n @ '' more* '' @ empties @ ''|'')"

definition metric_lines :: "stats \<Rightarrow> string \<Rightarrow> string \<Rightarrow> string list" where
  "metric_lines st backend duration =
     [''| Metric | Value |'',
      ''|--------|-------|'',
      ''| Hit rate | '' @ hitRate st @ ''% |'',
      ''| Local hits | '' @ nat_toString (localHits st) @ '' |'',
      ''| Remote hits | '' @ nat_toString (remoteHits st) @ '' |'',
      ''| Misses | '' @ nat_toString (misses st) @ '' |'']
     @ (if errors st > 0 then [''| Errors | '' @ nat_toString (errors st) @ '' |''] else [])
     @ [''| Total crates | '' @ nat_toString (total st) @ '' |'',
        ''| Backend | '' @ backend @ '' |'',
        ''| Duration | '' @ duration @ ''s |'']"

text \<open>The array \<^verbatim>\<open>lines\<close> of \<^verbatim>\<open>buildStatsMarkdown\<close> before it is joined.\<close>

definition stats_lines :: "stats \<Rightarrow> string \<Rightarrow> string \<Rightarrow> string list outcome" where
  "stats_lines st backend duration =
     (let lines = metric_lines st backend duration in
      if length (missedCrates st) > 0
      then
        let top10 = take 10 (missedCrates st);
            hasKeys = list_ex (\<lambda>c. truthy (cache_key c)) top10;
            opened = lines @ [[], ''<details>'',
                       ''<summary>Cache misses ('' @ nat_toString (misses st) @ '' crates)</summary>'',
                       []] @ table_header hasKeys
        in and_then (push_rows hasKeys top10 opened) (\<lambda>listed.
             Returns ((if length (missedCrates st) > 10
                       then listed @ [more_row hasKeys (length (missedCrates st) - 10)]
                       else listed)
                      @ [[], ''</details>'']))
      else Returns lines)"

text \<open>\<^verbatim>\<open>lines.join("\n")\<close>.\<close>

fun join_lines :: "string list \<Rightarrow> string" where
  "join_lines [] = []"
| "join_lines [l] = l"
| "join_lines (l # ls) = l @ [CHR 0x0A] @ join_lines ls"

definition buildStatsMarkdown :: "stats \<Rightarrow> string \<Rightarrow> string \<Rightarrow> string outcome" where
  "buildStatsMarkdown st backend duration =
     and_then (stats_lines st backend duration) (\<lambda>lines. Returns (join_lines lines))"

definition buildCommentBody :: "stats \<Rightarrow> string \<Rightarrow> string \<Rightarrow> string outcome" where
  "buildCommentBody st backend duration =
     and_then (buildStatsMarkdown st backend duration) (\<lambda>table.
       Returns (join_lines
         [''### kache build cache'',
          [],
          ''**'' @ hitRate st @ ''%** hit rate '' @ emdash @ '' '' @ nat_toString (hits st) @ ''/''
            @ nat_toString (total st) @ '' crates from cache, '' @ nat_toString (misses st)
            @ '' compiled'',
          [],
          table,
          [],
          ''*Posted by [kache-action](https://github.com/kunobi-ninja/kache-action)*'']))"

text \<open>
  An entry whose cells are of the types of the data model, and the text of its row.
\<close>

definition typed_entry :: "missedCrate \<Rightarrow> bool" where
  "typed_entry c =
     (string_field (name c) \<and> is_number (elapsed_ms c) \<and> is_number (size_bytes c)
      \<and> is_string (cache_key c))"

fun string_value :: "json \<Rightarrow> string" where
  "string_value (JStr s) = s"
| "string_value _ = []"

definition row_text :: "bool \<Rightarrow> missedCrate \<Rightarrow> string" where
  "row_text hasKeys c =
     ''| `'' @ (case name c of None \<Rightarrow> ''undefined'' | Some v \<Rightarrow> string_value v) @ ''` | ''
     @ formatMs (number_value (elapsed_ms c)) @ '' | ''
     @ formatBytes (number_value (size_bytes c)) @ '' |''
     @ (if hasKeys
        then '' '' @ (if string_value (cache_key c) \<noteq> []
                     then ''`'' @ take 12 (string_value (cache_key c)) @ ''` '' else [])
             @ ''|''
        else [])"

text \<open>Statistics with eleven misses of which only the last, the cheapest, has a key.\<close>

definition plain_miss :: "int \<Rightarrow> missedCrate" where
  "plain_miss t = \<lparr> name = Some (JStr ''dep''), elapsed_ms = JNum t, size_bytes = JNum 0,
                    cache_key = JStr [] \<rparr>"

definition keyed_miss :: missedCrate where
  "keyed_miss = \<lparr> name = Some (JStr ''last''), elapsed_ms = JNum 1, size_bytes = JNum 0,
                  cache_key = JStr ''0123456789abcdef'' \<rparr>"

definition eleven_misses :: stats where
  "eleven_misses =
     \<lparr> total = 11, localHits = 0, remoteHits = 0, hits = 0, misses = 11, errors = 0,
       hitRate = ''0.0'',
       missedCrates = [plain_miss 20, plain_miss 19, plain_miss 18, plain_miss 17, plain_miss 16,
                       plain_miss 15, plain_miss 14, plain_miss 13, plain_miss 12, plain_miss 11,
                       keyed_miss] \<rparr>"

section \<open>The post step (\<^verbatim>\<open>run\<close> of \<^verbatim>\<open>save.js\<close>)\<close>

text \<open>
  \<^verbatim>\<open>run\<close> calls the functions of \<^verbatim>\<open>utils.js\<close> and the toolkit. Each callee is represented by
  what a call does, returning or throwing, so that the properties of \<^verbatim>\<open>run\<close> hold whatever
  the callees do: the saved state and the inputs that \<^verbatim>\<open>run\<close> reads, the duration that it
  computes from the clock (\<^verbatim>\<open>"?"\<close> without a start time), and the outcome of every call.
\<close>

datatype summary_item = Heading string nat | Raw string

record post_env =
  state_s3_configured :: string
  state_gh_cache :: string
  input_manifest_key :: string
  input_token :: string
  duration_text :: string
  runKache_throws :: "string list \<Rightarrow> error option"
  saveCache_throws :: "error option"
  parseEvents_outcome :: "error + stats option"
  buildCommentBody_outcome :: "stats \<Rightarrow> string \<Rightarrow> string \<Rightarrow> error + string"
  postOrUpdateComment_throws :: "string \<Rightarrow> string \<Rightarrow> error option"
  buildStatsMarkdown_outcome :: "stats \<Rightarrow> string \<Rightarrow> string \<Rightarrow> error + string"
  summary_write_throws :: "summary_item list \<Rightarrow> error option"

text \<open>
  A block of statements gives the exception that leaves it, if any, and the messages that it
  logs. \<^verbatim>\<open>try { block } catch (err) { handler }\<close> runs the handler on the exception of the
  block; the exception of the handler, if any, leaves the statement.
\<close>

type_synonym block = "error option \<times> log_entry list"

definition try_catch :: "block \<Rightarrow> (error \<Rightarrow> block) \<Rightarrow> block" where
  "try_catch body handler =
     (case body of
        (None, logged) \<Rightarrow> (None, logged)
      | (Some err, logged) \<Rightarrow>
          (case handler err of (escaping, extra) \<Rightarrow> (escaping, logged @ extra)))"

definition core_info :: "string \<Rightarrow> block" where
  "core_info msg = (None, [Info msg])"

definition core_warning :: "string \<Rightarrow> block" where
  "core_warning msg = (None, [Warning msg])"

definition s3Configured :: "post_env \<Rightarrow> bool" where
  "s3Configured env = (state_s3_configured env = ''true'')"

definition ghCache :: "post_env \<Rightarrow> bool" where
  "ghCache env = (state_gh_cache env = ''true'')"

definition backend_name :: "post_env \<Rightarrow> string" where
  "backend_name env =
     (if s3Configured env then ''S3''
      else if ghCache env then ''GitHub Actions cache''
      else ''local only'')"

text \<open>Pushing the cache: the first statement of the \<^verbatim>\<open>try\<close> block.\<close>

definition push_cache :: "post_env \<Rightarrow> block" where
  "push_cache env =
     (if s3Configured env then
        let saveArgs = [''save-manifest''] @
              (if input_manifest_key env \<noteq> []
               then [''--manifest-key'', input_manifest_key env] else [])
        in case runKache_throws env saveArgs of
             Some err \<Rightarrow> (Some err, [Info ''Saving build manifest...''])
           | None \<Rightarrow>
               (runKache_throws env [''sync'', ''--push''],
                [Info ''Saving build manifest...'', Info ''Pushing cache to S3...''])
      else if ghCache env then
        (saveCache_throws env, [Info ''Saving cache to GitHub Actions cache...''])
      else (None, []))"

text \<open>\<^verbatim>\<open>stats && stats.total > 0\<close>.\<close>

definition has_data :: "stats option \<Rightarrow> bool" where
  "has_data st = (case st of None \<Rightarrow> False | Some s \<Rightarrow> total s > 0)"

text \<open>The handler of the inner \<^verbatim>\<open>try\<close>, around \<^verbatim>\<open>postOrUpdateComment\<close>.\<close>

definition comment_failed :: "error \<Rightarrow> block" where
  "comment_failed err =
     (if includes_str (message err) ''Resource not accessible''
      then core_info (''Skipping PR comment '' @ emdash
                      @ '' token lacks pull-requests: write permission'')
      else core_warning (''Failed to post PR comment: '' @ message err))"

definition publish_comment :: "post_env \<Rightarrow> stats option \<Rightarrow> block" where
  "publish_comment env st =
     (if has_data st then
        (case buildCommentBody_outcome env (the st) (backend_name env) (duration_text env) of
           Inl err \<Rightarrow> (Some err, [])
         | Inr body \<Rightarrow>
             try_catch (postOrUpdateComment_throws env body (input_token env), []) comment_failed)
      else (None, []))"

text \<open>The job summary: the buffer that \<^verbatim>\<open>summary.write()\<close> is called with.\<close>

definition build_summary :: "post_env \<Rightarrow> stats option \<Rightarrow> error + summary_item list" where
  "build_summary env st =
     (if has_data st then
        (case buildStatsMarkdown_outcome env (the st) (backend_name env) (duration_text env) of
           Inl err \<Rightarrow> Inl err
         | Inr table \<Rightarrow>
             Inr [Heading ''Kache Build Cache'' 2,
                  Raw (''**'' @ hitRate (the st) @ ''%** hit rate '' @ emdash @ '' ''
                       @ nat_toString (hits (the st)) @ ''/'' @ nat_toString (total (the st))
                       @ '' crates from cache, '' @ nat_toString (misses (the st))
                       @ '' compiled'' @ [CHR 0x0A, CHR 0x0A]),
                  Raw table,
                  Raw [CHR 0x0A]])
      else
        Inr [Heading ''Kache Build Cache'' 2,
             Raw (''**Backend:** '' @ backend_name env @ '' | **Duration:** '' @ duration_text env
                  @ ''s'' @ [CHR 0x0A, CHR 0x0A])])"

text \<open>
  The \<^verbatim>\<open>try\<close> block of \<^verbatim>\<open>run\<close>: the exception that leaves it, the messages logged, and the
  summary written (\<open>None\<close> when \<^verbatim>\<open>summary.write()\<close> is not reached).
\<close>

definition run_body :: "post_env \<Rightarrow> block \<times> summary_item list option" where
  "run_body env =
     (case push_cache env of
        (Some err, l1) \<Rightarrow> ((Some err, l1), None)
      | (None, l1) \<Rightarrow>
          (case parseEvents_outcome env of
             Inl err \<Rightarrow> ((Some err, l1), None)
           | Inr st \<Rightarrow>
               (case publish_comment env st of
                  (Some err, l2) \<Rightarrow> ((Some err, l1 @ l2), None)
                | (None, l2) \<Rightarrow>
                    (case build_summary env st of
                       Inl err \<Rightarrow> ((Some err, l1 @ l2), None)
                     | Inr items \<Rightarrow>
                         ((summary_write_throws env items, l1 @ l2), Some items)))))"

record post_result =
  escaped :: "error option"
  messages :: "log_entry list"
  written :: "summary_item list option"

definition run :: "post_env \<Rightarrow> post_result" where
  "run env =
     (case try_catch (fst (run_body env))
             (\<lambda>error. core_warning (''kache post step failed: '' @ message error)) of
        (escaping, logged) \<Rightarrow>
          \<lparr> escaped = escaping, messages = logged, written = snd (run_body env) \<rparr>)"

text \<open>A run in which the token may not write to the pull request.\<close>

definition forbidden_env :: post_env where
  "forbidden_env =
     \<lparr> state_s3_configured = ''false'', state_gh_cache = ''true'',
       input_manifest_key = [], input_token = ''tok'', duration_text = ''12.3'',
       runKache_throws = (\<lambda>args. None),
       saveCache_throws = None,
       parseEvents_outcome = Inr (Some scenario_stats),
       buildCommentBody_outcome = (\<lambda>st b d. Inr ''body''),
       postOrUpdateComment_throws =
         (\<lambda>body token. Some (ApiError ''Resource not accessible by integration'')),
       buildStatsMarkdown_outcome = (\<lambda>st b d. Inr ''table''),
       summary_write_throws = (\<lambda>items. Some (IOError ''GITHUB_STEP_SUMMARY'')) \<rparr>"

section \<open>Properties of the cache key\<close>

lemma hash_lockfiles_concat:
  "\<forall>p \<in> set ps. fs p \<noteq> None \<Longrightarrow>
   hash_lockfiles fs ps h = Inr (h @ concat (map (\<lambda>p. the (fs p)) ps))"
  by (induction ps arbitrary: h) (auto simp: readFileSync_def update_def)

lemma sort_discovery_order:
  fixes ps qs :: "string list"
  assumes "mset qs = mset ps"
  shows "sort qs = sort ps"
proof -
  have "mset (sort ps) = mset qs" using assms by simp
  then show ?thesis by (rule properties_for_sort) simp
qed

text \<open>
  Claim C1. When every lockfile found can be read, \<^verbatim>\<open>buildCacheKey\<close> returns the key
  \<^verbatim>\<open>prefix-version-platform-lockHash\<close>, where the prefix and the version are the resolved
  ones (the input, or \<^verbatim>\<open>kache\<close> and \<^verbatim>\<open>unknown\<close> when it is empty or unset), and the lock hash
  is the first 16 characters of the digest of the contents concatenated in sorted path order,
  or \<^verbatim>\<open>no-lockfile\<close> for no file; any other discovery order of the same files gives the
  same result.
\<close>

theorem buildCacheKey_key:
  assumes "\<forall>p \<in> set lockfiles. fs p \<noteq> None"
  shows "buildCacheKey sha256_hex fs prefixInput osPlatform osArch envVersion lockfiles =
           Inr \<lparr> key = (if prefixInput = [] then ''kache'' else prefixInput) @ ''-'' @
                        (case envVersion of None \<Rightarrow> ''unknown''
                         | Some v \<Rightarrow> if v = [] then ''unknown'' else v) @ ''-'' @
                        (osPlatform @ ''-'' @ osArch) @ ''-'' @
                        lockHash_spec sha256_hex fs lockfiles,
                  restoreKeys = [(if prefixInput = [] then ''kache'' else prefixInput) @ ''-'' @
                        (case envVersion of None \<Rightarrow> ''unknown''
                         | Some v \<Rightarrow> if v = [] then ''unknown'' else v) @ ''-'' @
                        (osPlatform @ ''-'' @ osArch) @ ''-''] \<rparr>
         \<and> (\<forall>discovered. mset discovered = mset lockfiles \<longrightarrow>
               buildCacheKey sha256_hex fs prefixInput osPlatform osArch envVersion discovered =
               buildCacheKey sha256_hex fs prefixInput osPlatform osArch envVersion lockfiles)"
proof (intro conjI allI impI)
  have readable: "\<forall>p \<in> set (sort lockfiles). fs p \<noteq> None"
    using assms by simp
  show "buildCacheKey sha256_hex fs prefixInput osPlatform osArch envVersion lockfiles =
           Inr \<lparr> key = (if prefixInput = [] then ''kache'' else prefixInput) @ ''-'' @
                        (case envVersion of None \<Rightarrow> ''unknown''
                         | Some v \<Rightarrow> if v = [] then ''unknown'' else v) @ ''-'' @
                        (osPlatform @ ''-'' @ osArch) @ ''-'' @
                        lockHash_spec sha256_hex fs lockfiles,
                  restoreKeys = [(if prefixInput = [] then ''kache'' else prefixInput) @ ''-'' @
                        (case envVersion of None \<Rightarrow> ''unknown''
                         | Some v \<Rightarrow> if v = [] then ''unknown'' else v) @ ''-'' @
                        (osPlatform @ ''-'' @ osArch) @ ''-''] \<rparr>"
    unfolding buildCacheKey_def lockHash_spec_def Let_def
    by (simp add: hash_lockfiles_concat [OF readable] createHash_def digest_hex_def
        split: option.splits)
next
  fix discovered :: "string list"
  assume same: "mset discovered = mset lockfiles"
  then have "sort discovered = sort lockfiles"
    by (rule sort_discovery_order)
  moreover have "discovered = [] \<longleftrightarrow> lockfiles = []"
    using same by (metis mset_zero_iff)
  ultimately show
    "buildCacheKey sha256_hex fs prefixInput osPlatform osArch envVersion discovered =
     buildCacheKey sha256_hex fs prefixInput osPlatform osArch envVersion lockfiles"
    unfolding buildCacheKey_def Let_def by simp
qed

theorem buildCacheKey_key_witness:
  "[''b/Cargo.lock'' \<mapsto> ''B'', ''a/Cargo.lock'' \<mapsto> ''A''] ''b/Cargo.lock'' \<noteq> None
   \<and> [''b/Cargo.lock'' \<mapsto> ''B'', ''a/Cargo.lock'' \<mapsto> ''A''] ''a/Cargo.lock'' \<noteq> None
   \<and> buildCacheKey (\<lambda>b. b) [''b/Cargo.lock'' \<mapsto> ''B'', ''a/Cargo.lock'' \<mapsto> ''A'']
         ''kache'' ''linux'' ''x64'' (Some ''v1'') [''b/Cargo.lock'', ''a/Cargo.lock'']
       = Inr \<lparr> key = ''kache-v1-linux-x64-AB'', restoreKeys = [''kache-v1-linux-x64-''] \<rparr>
   \<and> buildCacheKey (\<lambda>b. b) [''b/Cargo.lock'' \<mapsto> ''B'', ''a/Cargo.lock'' \<mapsto> ''A'']
         ''kache'' ''linux'' ''x64'' (Some ''v1'') [''a/Cargo.lock'', ''b/Cargo.lock'']
       = Inr \<lparr> key = ''kache-v1-linux-x64-AB'', restoreKeys = [''kache-v1-linux-x64-''] \<rparr>"
  using buildCacheKey_key
    [of "[''b/Cargo.lock'', ''a/Cargo.lock'']"
        "[''b/Cargo.lock'' \<mapsto> ''B'', ''a/Cargo.lock'' \<mapsto> ''A'']"
        "(\<lambda>b. b)" "''kache''" "''linux''" "''x64''" "Some ''v1''"]
  by (simp add: lockHash_spec_def)

text \<open>
  With the prefix, the platform and the lockfiles fixed, two different versions (as resolved:
  \<^verbatim>\<open>KACHE_VERSION\<close>, or \<^verbatim>\<open>unknown\<close>) give different keys and different restore prefixes.
\<close>

lemma buildCacheKey_version:
  assumes "buildCacheKey sha256_hex fs prefixInput osPlatform osArch v1 lockfiles = Inr d1"
    and "buildCacheKey sha256_hex fs prefixInput osPlatform osArch v2 lockfiles = Inr d2"
    and "(case v1 of None \<Rightarrow> ''unknown'' | Some v \<Rightarrow> if v \<noteq> [] then v else ''unknown'')
       \<noteq> (case v2 of None \<Rightarrow> ''unknown'' | Some v \<Rightarrow> if v \<noteq> [] then v else ''unknown'')"
  shows "key d1 \<noteq> key d2 \<and> restoreKeys d1 \<noteq> restoreKeys d2"
  using assms unfolding buildCacheKey_def Let_def
  by (auto split: sum.splits if_splits)

text \<open>
  Changing one byte of one lockfile changes the bytes that the hasher absorbs. The lock hash,
  the first 16 characters of their digest, then changes exactly when the digests of the two
  byte sequences differ in their first 16 characters, which is a property of SHA-256 and not
  of \<^verbatim>\<open>buildCacheKey\<close>.
\<close>

lemma concat_map_same_length:
  assumes "\<forall>x \<in> set xs. length (f x) = length (g x)"
  shows "concat (map f xs) = concat (map g xs) \<longleftrightarrow> (\<forall>x \<in> set xs. f x = g x)"
  using assms by (induction xs) auto

lemma lockfile_byte_stream:
  assumes readable: "\<forall>q \<in> set lockfiles. fs q \<noteq> None"
    and p: "p \<in> set lockfiles" "fs p = Some d" and i: "i < length d" and b: "b \<noteq> d ! i"
  shows "\<exists>s s'. s' \<noteq> s
           \<and> hash_lockfiles fs (sort lockfiles) createHash = Inr s
           \<and> hash_lockfiles (fs(p \<mapsto> d[i := b])) (sort lockfiles) createHash = Inr s'"
proof -
  let ?fs' = "fs(p \<mapsto> d[i := b])"
  let ?f = "\<lambda>q. the (fs q)" and ?g = "\<lambda>q. the (?fs' q)"
  have r: "\<forall>q \<in> set (sort lockfiles). fs q \<noteq> None" using readable by simp
  have r': "\<forall>q \<in> set (sort lockfiles). ?fs' q \<noteq> None" using readable by simp
  have len: "\<forall>q \<in> set (sort lockfiles). length (?f q) = length (?g q)"
    using p by simp
  have "d[i := b] \<noteq> d" using i b by (metis nth_list_update_eq)
  then have "?g p \<noteq> ?f p" using p by simp
  then have "\<not> (\<forall>q \<in> set (sort lockfiles). ?f q = ?g q)" using p(1) by auto
  then have "concat (map ?g (sort lockfiles)) \<noteq> concat (map ?f (sort lockfiles))"
    using concat_map_same_length [OF len] by auto
  then show ?thesis
    unfolding hash_lockfiles_concat [OF r] hash_lockfiles_concat [OF r']
    by (simp add: createHash_def)
qed

section \<open>Properties of the sticky comment\<close>

lemma includes_str_iff: "includes_str s t \<longleftrightarrow> (\<exists>p q. s = p @ t @ q)"
proof (induction s)
  case Nil
  then show ?case by auto
next
  case (Cons c s)
  have here: "take (length t) (c # s) = t \<longleftrightarrow> (\<exists>q. c # s = t @ q)"
    by (metis append_eq_conv_conj append_take_drop_id)
  have "(\<exists>p q. c # s = p @ t @ q) \<longleftrightarrow> (\<exists>q. c # s = t @ q) \<or> (\<exists>p q. s = p @ t @ q)"
  proof
    assume "\<exists>p q. c # s = p @ t @ q"
    then obtain p q where pq: "c # s = p @ t @ q" by blast
    show "(\<exists>q. c # s = t @ q) \<or> (\<exists>p q. s = p @ t @ q)"
    proof (cases p)
      case Nil
      then show ?thesis using pq by auto
    next
      case (Cons a p')
      then have "s = p' @ t @ q" using pq by simp
      then show ?thesis by blast
    qed
  next
    assume "(\<exists>q. c # s = t @ q) \<or> (\<exists>p q. s = p @ t @ q)"
    then show "\<exists>p q. c # s = p @ t @ q"
    proof
      assume "\<exists>q. c # s = t @ q"
      then show ?thesis by (metis append_Nil)
    next
      assume "\<exists>p q. s = p @ t @ q"
      then obtain p q where "s = p @ t @ q" by blast
      then have "c # s = (c # p) @ t @ q" by simp
      then show ?thesis by blast
    qed
  qed
  with here Cons.IH show ?case by simp
qed

lemma marked_body_carries:
  "carries_marker (c\<lparr>comment_body := Some (COMMENT_MARKER @ [CHR 0x0A] @ body)\<rparr>)"
proof -
  have "includes_str (COMMENT_MARKER @ [CHR 0x0A] @ body) COMMENT_MARKER"
    unfolding includes_str_iff by (metis append_Nil)
  moreover have "COMMENT_MARKER @ [CHR 0x0A] @ body \<noteq> []"
    by simp
  ultimately show ?thesis by (simp add: carries_marker_def)
qed

lemma find_first_index:
  assumes "i < length xs" and "P (xs ! i)" and "\<forall>j<i. \<not> P (xs ! j)"
  shows "find P xs = Some (xs ! i)"
  using assms
proof (induction xs arbitrary: i)
  case Nil
  then show ?case by simp
next
  case (Cons x xs)
  show ?case
  proof (cases i)
    case 0
    then show ?thesis using Cons.prems by simp
  next
    case (Suc k)
    have "\<not> P x" using Cons.prems(3) Suc by auto
    moreover have "find P xs = Some (xs ! k)"
    proof (rule Cons.IH)
      show "k < length xs" using Cons.prems(1) Suc by simp
      show "P (xs ! k)" using Cons.prems(2) Suc by simp
      show "\<forall>j<k. \<not> P (xs ! j)" using Cons.prems(3) Suc by auto
    qed
    ultimately show ?thesis using Suc by simp
  qed
qed

lemma map_update_distinct:
  assumes "distinct (map f xs)" and "i < length xs"
  shows "map (\<lambda>c. if f c = f (xs ! i) then g c else c) xs = xs[i := g (xs ! i)]"
proof (rule nth_equalityI)
  show "length (map (\<lambda>c. if f c = f (xs ! i) then g c else c) xs) = length (xs[i := g (xs ! i)])"
    by simp
next
  fix j assume "j < length (map (\<lambda>c. if f c = f (xs ! i) then g c else c) xs)"
  then have j: "j < length xs" by simp
  have "map f xs ! j = map f xs ! i \<longleftrightarrow> j = i"
    using assms j by (simp only: nth_eq_iff_index_eq length_map)
  then have "f (xs ! j) = f (xs ! i) \<longleftrightarrow> j = i"
    using assms j by simp
  then show "map (\<lambda>c. if f c = f (xs ! i) then g c else c) xs ! j = xs[i := g (xs ! i)] ! j"
    using j assms(2) by (auto simp: nth_list_update)
qed

lemma filter_update_same:
  "i < length xs \<Longrightarrow> P (xs ! i) \<Longrightarrow> P y \<Longrightarrow>
   length (filter P (xs[i := y])) = length (filter P xs)"
  by (induction xs arbitrary: i) (auto simp: nth_Cons split: nat.splits)

lemma plain_no_marker: "\<not> carries_marker (plain_comment i)"
  by (simp add: carries_marker_def plain_comment_def COMMENT_MARKER_def)

lemma sticky_marker: "carries_marker (sticky_comment i b)"
  using marked_body_carries [of b "\<lparr>comment_id = i, comment_body = None\<rparr>"]
  by (simp add: sticky_comment_def)


text \<open>
  Claim C4, as amended. When the API accepts the requests and the comments of the thread have
  distinct identifiers: if a comment among the first 100 of the thread (the page that
  \<^verbatim>\<open>listComments\<close> returns) carries the marker, \<^verbatim>\<open>postOrUpdateComment\<close> overwrites the
  body of the first such comment with the marker, a newline and the body, and creates no
  comment: the number of comments and the number of comments that carry the marker are
  unchanged. If none of the first 100 carries the marker, it creates exactly one comment,
  whose body is the marker, a newline and the body. When no pull request number can be
  resolved, it makes no request, changes nothing and logs that it skips the comment.
\<close>

theorem postOrUpdateComment_sticky:
  assumes api: "getOctokit gh token = None" "\<forall>c. rejects gh c = None"
    and ids: "distinct (map comment_id (thread gh))"
  shows
    "(\<forall>n i. or_number (pull_request_number ctx) (issue_number ctx) = Some n \<and> n \<noteq> 0 \<and>
        i < length (thread gh) \<and> i < 100 \<and> carries_marker (thread gh ! i) \<and>
        (\<forall>j<i. \<not> carries_marker (thread gh ! j)) \<longrightarrow>
        postOrUpdateComment body token ctx gh =
          (None,
           [Info (''Updated existing PR comment #'' @ nat_toString (comment_id (thread gh ! i)))],
           gh\<lparr>calls := calls gh @ [ListComments n 100,
                    UpdateComment (comment_id (thread gh ! i)) (COMMENT_MARKER @ [CHR 0x0A] @ body)],
               thread := (thread gh)[i := (thread gh ! i)
                    \<lparr>comment_body := Some (COMMENT_MARKER @ [CHR 0x0A] @ body)\<rparr>]\<rparr>)
        \<and> length (thread (snd (snd (postOrUpdateComment body token ctx gh)))) = length (thread gh)
        \<and> length (filter carries_marker (thread (snd (snd (postOrUpdateComment body token ctx gh)))))
            = length (filter carries_marker (thread gh)))
   \<and> (\<forall>n. or_number (pull_request_number ctx) (issue_number ctx) = Some n \<and> n \<noteq> 0 \<and>
        (\<forall>c \<in> set (take 100 (thread gh)). \<not> carries_marker c) \<longrightarrow>
        postOrUpdateComment body token ctx gh =
          (None, [Info ''Posted new PR comment''],
           gh\<lparr>calls := calls gh @ [ListComments n 100,
                    CreateComment n (COMMENT_MARKER @ [CHR 0x0A] @ body)],
               thread := thread gh @
                    [\<lparr>comment_id = fresh_id gh,
                      comment_body = Some (COMMENT_MARKER @ [CHR 0x0A] @ body)\<rparr>],
               fresh_id := Suc (fresh_id gh)\<rparr>))
   \<and> (or_number (pull_request_number ctx) (issue_number ctx) \<in> {None, Some 0} \<longrightarrow>
        postOrUpdateComment body token ctx gh =
          (None, [Info ''Not a PR context, skipping comment''], gh))"
proof (intro conjI allI impI)
  fix n i
  assume h: "or_number (pull_request_number ctx) (issue_number ctx) = Some n \<and> n \<noteq> 0 \<and>
        i < length (thread gh) \<and> i < 100 \<and> carries_marker (thread gh ! i) \<and>
        (\<forall>j<i. \<not> carries_marker (thread gh ! j))"
  let ?listed = "take 100 (thread gh)"
  define marked where "marked = COMMENT_MARKER @ CHR 0x0A # body"
  have "find carries_marker ?listed = Some (?listed ! i)"
    by (rule find_first_index) (use h in auto)
  then have found: "find carries_marker ?listed = Some (thread gh ! i)"
    using h by simp
  have upd: "map (\<lambda>c. if comment_id c = comment_id (thread gh ! i)
                      then c\<lparr>comment_body := Some marked\<rparr> else c) (thread gh)
             = (thread gh)[i := (thread gh ! i)\<lparr>comment_body := Some marked\<rparr>]"
    using map_update_distinct [OF ids, of i "\<lambda>c. c\<lparr>comment_body := Some marked\<rparr>"] h by simp
  have "postOrUpdateComment body token ctx gh =
          (None,
           [Info (''Updated existing PR comment #'' @ nat_toString (comment_id (thread gh ! i)))],
           gh\<lparr>calls := calls gh @ [ListComments n 100,
                    UpdateComment (comment_id (thread gh ! i)) marked],
               thread := (thread gh)[i := (thread gh ! i)\<lparr>comment_body := Some marked\<rparr>]\<rparr>)"
    using h api found
    by (simp add: postOrUpdateComment_def listComments_def updateComment_def Let_def upd
        flip: marked_def)
  then show res: "postOrUpdateComment body token ctx gh =
          (None,
           [Info (''Updated existing PR comment #'' @ nat_toString (comment_id (thread gh ! i)))],
           gh\<lparr>calls := calls gh @ [ListComments n 100,
                    UpdateComment (comment_id (thread gh ! i)) (COMMENT_MARKER @ [CHR 0x0A] @ body)],
               thread := (thread gh)[i := (thread gh ! i)
                    \<lparr>comment_body := Some (COMMENT_MARKER @ [CHR 0x0A] @ body)\<rparr>]\<rparr>)"
    by (simp add: marked_def)
  show "length (thread (snd (snd (postOrUpdateComment body token ctx gh)))) = length (thread gh)"
    by (simp add: res)
  have "carries_marker ((thread gh ! i)\<lparr>comment_body := Some (COMMENT_MARKER @ [CHR 0x0A] @ body)\<rparr>)"
    by (rule marked_body_carries)
  then show "length (filter carries_marker (thread (snd (snd (postOrUpdateComment body token ctx gh)))))
            = length (filter carries_marker (thread gh))"
    using h filter_update_same [of i "thread gh" carries_marker] by (simp add: res)
next
  fix n
  assume h: "or_number (pull_request_number ctx) (issue_number ctx) = Some n \<and> n \<noteq> 0 \<and>
        (\<forall>c \<in> set (take 100 (thread gh)). \<not> carries_marker c)"
  then have "find carries_marker (take 100 (thread gh)) = None"
    by (simp add: find_None_iff)
  then show "postOrUpdateComment body token ctx gh =
          (None, [Info ''Posted new PR comment''],
           gh\<lparr>calls := calls gh @ [ListComments n 100,
                    CreateComment n (COMMENT_MARKER @ [CHR 0x0A] @ body)],
               thread := thread gh @
                    [\<lparr>comment_id = fresh_id gh,
                      comment_body = Some (COMMENT_MARKER @ [CHR 0x0A] @ body)\<rparr>],
               fresh_id := Suc (fresh_id gh)\<rparr>)"
    using h api
    by (simp add: postOrUpdateComment_def listComments_def createComment_def Let_def)
next
  assume "or_number (pull_request_number ctx) (issue_number ctx) \<in> {None, Some 0}"
  then show "postOrUpdateComment body token ctx gh =
          (None, [Info ''Not a PR context, skipping comment''], gh)"
    by (auto simp: postOrUpdateComment_def)
qed


theorem postOrUpdateComment_sticky_witness:
  "postOrUpdateComment ''new'' ''tok'' (pr_context 7)
      (open_api [plain_comment 11, sticky_comment 12 ''old'', plain_comment 13] 14)
     = (None, [Info ''Updated existing PR comment #12''],
        \<lparr>thread = [plain_comment 11, sticky_comment 12 ''new'', plain_comment 13], fresh_id = 14,
          calls = [ListComments 7 100, UpdateComment 12 (COMMENT_MARKER @ [CHR 0x0A] @ ''new'')],
          rejects = (\<lambda>_. None), getOctokit = (\<lambda>_. None)\<rparr>)
   \<and> postOrUpdateComment ''new'' ''tok'' (pr_context 7) (open_api [plain_comment 11] 12)
     = (None, [Info ''Posted new PR comment''],
        \<lparr>thread = [plain_comment 11, sticky_comment 12 ''new''], fresh_id = 13,
          calls = [ListComments 7 100, CreateComment 7 (COMMENT_MARKER @ [CHR 0x0A] @ ''new'')],
          rejects = (\<lambda>_. None), getOctokit = (\<lambda>_. None)\<rparr>)
   \<and> postOrUpdateComment ''new'' ''tok'' \<lparr>pull_request_number = None, issue_number = None\<rparr>
        (open_api [plain_comment 11] 12)
     = (None, [Info ''Not a PR context, skipping comment''], open_api [plain_comment 11] 12)"
proof (intro conjI)
  let ?gh = "open_api [plain_comment 11, sticky_comment 12 ''old'', plain_comment 13] 14"
  have "getOctokit ?gh ''tok'' = None" "\<forall>c. rejects ?gh c = None"
    "distinct (map comment_id (thread ?gh))"
    by (simp_all add: open_api_def plain_comment_def sticky_comment_def)
  note t = postOrUpdateComment_sticky [OF this, of "pr_context 7" "''new''"]
  have "or_number (pull_request_number (pr_context 7)) (issue_number (pr_context 7)) = Some 7 \<and>
        (7::nat) \<noteq> 0 \<and> 1 < length (thread ?gh) \<and> (1::nat) < 100 \<and>
        carries_marker (thread ?gh ! 1) \<and> (\<forall>j<1. \<not> carries_marker (thread ?gh ! j))"
    by (simp add: open_api_def pr_context_def or_number_def plain_no_marker sticky_marker)
  from t [THEN conjunct1, rule_format, OF this]
  show "postOrUpdateComment ''new'' ''tok'' (pr_context 7) ?gh
     = (None, [Info ''Updated existing PR comment #12''],
        \<lparr>thread = [plain_comment 11, sticky_comment 12 ''new'', plain_comment 13], fresh_id = 14,
          calls = [ListComments 7 100, UpdateComment 12 (COMMENT_MARKER @ [CHR 0x0A] @ ''new'')],
          rejects = (\<lambda>_. None), getOctokit = (\<lambda>_. None)\<rparr>)"
    by (simp add: open_api_def sticky_comment_def plain_comment_def nat_toString.simps)
next
  let ?gh = "open_api [plain_comment 11] 12"
  have "getOctokit ?gh ''tok'' = None" "\<forall>c. rejects ?gh c = None"
    "distinct (map comment_id (thread ?gh))"
    by (simp_all add: open_api_def plain_comment_def)
  note t = postOrUpdateComment_sticky [OF this, of "pr_context 7" "''new''"]
  have "or_number (pull_request_number (pr_context 7)) (issue_number (pr_context 7)) = Some 7 \<and>
        (7::nat) \<noteq> 0 \<and> (\<forall>c \<in> set (take 100 (thread ?gh)). \<not> carries_marker c)"
    by (simp add: open_api_def pr_context_def or_number_def plain_no_marker)
  from t [THEN conjunct2, THEN conjunct1, rule_format, OF this]
  show "postOrUpdateComment ''new'' ''tok'' (pr_context 7) ?gh
     = (None, [Info ''Posted new PR comment''],
        \<lparr>thread = [plain_comment 11, sticky_comment 12 ''new''], fresh_id = 13,
          calls = [ListComments 7 100, CreateComment 7 (COMMENT_MARKER @ [CHR 0x0A] @ ''new'')],
          rejects = (\<lambda>_. None), getOctokit = (\<lambda>_. None)\<rparr>)"
    by (simp add: open_api_def sticky_comment_def)
next
  let ?gh = "open_api [plain_comment 11] 12"
  have "getOctokit ?gh ''tok'' = None" "\<forall>c. rejects ?gh c = None"
    "distinct (map comment_id (thread ?gh))"
    by (simp_all add: open_api_def plain_comment_def)
  note t = postOrUpdateComment_sticky
             [OF this, of "\<lparr>pull_request_number = None, issue_number = None\<rparr>" "''new''"]
  from t [THEN conjunct2, THEN conjunct2]
  show "postOrUpdateComment ''new'' ''tok'' \<lparr>pull_request_number = None, issue_number = None\<rparr> ?gh
     = (None, [Info ''Not a PR context, skipping comment''], ?gh)"
    by (simp add: or_number_def)
qed


text \<open>
  The claim as first stated fails for a thread whose only marked comment is the 101st (a
  second marked comment is created), and a thread with two marked comments keeps both.
\<close>

lemma take_long_thread: "take 100 long_thread = map plain_comment [1..<101]"
  by (simp add: long_thread_def)

lemma find_long_thread: "find carries_marker (take 100 long_thread) = None"
  by (simp add: take_long_thread find_None_iff plain_no_marker)

theorem postOrUpdateComment_sticky_counterexample:
  "carries_marker (long_thread ! 100)
   \<and> thread (snd (snd (postOrUpdateComment ''new'' ''tok'' (pr_context 7) (open_api long_thread 102))))
       = long_thread @ [sticky_comment 102 ''new'']
   \<and> length (filter carries_marker
        (thread (snd (snd (postOrUpdateComment ''new'' ''tok'' (pr_context 7) (open_api long_thread 102))))))
       = 2
   \<and> length (filter carries_marker
        (thread (snd (snd (postOrUpdateComment ''new'' ''tok'' (pr_context 7)
           (open_api [sticky_comment 11 ''old'', sticky_comment 12 ''older''] 13))))))
       = 2"
proof (intro conjI)
  show "carries_marker (long_thread ! 100)"
    by (simp add: long_thread_def nth_append sticky_marker)
  have res: "postOrUpdateComment ''new'' ''tok'' (pr_context 7) (open_api long_thread 102)
      = (None, [Info ''Posted new PR comment''],
         \<lparr>thread = long_thread @ [sticky_comment 102 ''new''], fresh_id = 103,
          calls = [ListComments 7 100, CreateComment 7 (COMMENT_MARKER @ [CHR 0x0A] @ ''new'')],
          rejects = (\<lambda>_. None), getOctokit = (\<lambda>_. None)\<rparr>)"
    using find_long_thread
    by (simp add: postOrUpdateComment_def listComments_def createComment_def Let_def
        open_api_def pr_context_def or_number_def sticky_comment_def)
  show "thread (snd (snd (postOrUpdateComment ''new'' ''tok'' (pr_context 7) (open_api long_thread 102))))
       = long_thread @ [sticky_comment 102 ''new'']"
    by (simp add: res)
  have "filter carries_marker long_thread = [sticky_comment 101 ''old'']"
    by (simp add: long_thread_def plain_no_marker sticky_marker)
  then show "length (filter carries_marker
        (thread (snd (snd (postOrUpdateComment ''new'' ''tok'' (pr_context 7) (open_api long_thread 102))))))
       = 2"
    by (simp add: res sticky_marker)
  have "find carries_marker [sticky_comment 11 ''old'', sticky_comment 12 ''older'']
        = Some (sticky_comment 11 ''old'')"
    by (simp add: sticky_marker)
  then have "thread (snd (snd (postOrUpdateComment ''new'' ''tok'' (pr_context 7)
           (open_api [sticky_comment 11 ''old'', sticky_comment 12 ''older''] 13))))
        = [sticky_comment 11 ''new'', sticky_comment 12 ''older'']"
    by (simp add: postOrUpdateComment_def listComments_def updateComment_def Let_def
        open_api_def pr_context_def or_number_def sticky_comment_def)
  then show "length (filter carries_marker
        (thread (snd (snd (postOrUpdateComment ''new'' ''tok'' (pr_context 7)
           (open_api [sticky_comment 11 ''old'', sticky_comment 12 ''older''] 13))))))
       = 2"
    by (simp add: sticky_marker)
qed

section \<open>Properties of the event log parser\<close>

lemma parse_lines_acc:
  "parse_lines P ls acc = acc @ List.map_filter P (filter (\<lambda>l. trim l \<noteq> []) ls)"
  by (induction ls arbitrary: acc) (auto simp: List.map_filter_simps split: option.splits)

lemma decodable_records_blank: "trim raw = [] \<Longrightarrow> decodable_records JSON_parse raw = []"
  by (simp add: decodable_records_def List.map_filter_simps) (simp add: trim_def)

lemma parse_lines_decodable:
  "parse_lines JSON_parse (split_on (CHR 0x0A) (trim raw)) [] = decodable_records JSON_parse raw"
  by (simp add: parse_lines_acc decodable_records_def)

lemma parseEvents_Content:
  "parseEvents JSON_parse (Content raw) =
     (if decodable_records JSON_parse raw = [] then Returns None
      else reported (aggregate (decodable_records JSON_parse raw)))"
proof (cases "trim raw = []")
  case True
  then show ?thesis
    by (simp add: parseEvents_def decodable_records_blank)
next
  case False
  then show ?thesis
    by (simp add: parseEvents_def Let_def parse_lines_decodable split: outcome.split)
qed


section \<open>Properties of the number model\<close>

lemma pow2_powi: "(2::rat) ^ nat e / 2 ^ nat (- e) = 2 powi e"
proof (cases "0 \<le> e")
  case True
  then show ?thesis by (simp add: power_int_def)
next
  case False
  then show ?thesis by (simp add: power_int_def power_inverse field_simps)
qed

lemma double_value_powi: "double_value (Double m e) = of_nat m * 2 powi e"
proof -
  have "double_value (Double m e) = of_nat m * (2 ^ nat e / 2 ^ nat (- e))"
    by simp
  then show ?thesis by (simp only: pow2_powi)
qed

lemma bitlen_bounds: "0 < n \<Longrightarrow> 2 ^ (bitlen n - 1) \<le> n \<and> n < 2 ^ bitlen n"
proof (induction n rule: bitlen.induct)
  case (1 n)
  show ?case
  proof (cases "n div 2 = 0")
    case True
    with "1.prems" have "n = 1" by (simp add: div_eq_0_iff) 
    then show ?thesis by (simp add: bitlen.simps)
  next
    case False
    then have pos: "0 < n div 2" by simp
    have IH: "2 ^ (bitlen (n div 2) - 1) \<le> n div 2 \<and> n div 2 < 2 ^ bitlen (n div 2)"
      using "1.IH" "1.prems" pos by simp
    have bl: "bitlen n = Suc (bitlen (n div 2))"
      using "1.prems" by (subst bitlen.simps) simp
    have bpos: "0 < bitlen (n div 2)"
      using pos by (subst bitlen.simps) simp
    then have p: "(2::nat) ^ bitlen (n div 2) = 2 * 2 ^ (bitlen (n div 2) - 1)"
      by (cases "bitlen (n div 2)") simp_all
    have "2 ^ (bitlen n - 1) = (2::nat) ^ bitlen (n div 2)"
      by (simp add: bl)
    also have "\<dots> = 2 * 2 ^ (bitlen (n div 2) - 1)"
      by (rule p)
    also have "\<dots> \<le> 2 * (n div 2)"
      using IH by simp
    also have "\<dots> \<le> n"
      by simp
    finally have lower: "2 ^ (bitlen n - 1) \<le> n" .
    have "n < 2 * (n div 2 + 1)" by simp
    also have "\<dots> \<le> 2 * 2 ^ bitlen (n div 2)"
      using IH by simp
    finally have "n < 2 ^ bitlen n" by (simp add: bl)
    with lower show ?thesis by simp
  qed
qed

lemma round_half_even_near:
  assumes "0 < b"
  shows "\<bar>of_nat (round_half_even a b) - (of_nat a / of_nat b :: rat)\<bar> \<le> 1 / 2"
proof -
  define q r where "q = a div b" and "r = a mod b"
  have a: "a = q * b + r" and r: "r < b"
    using assms by (simp_all add: q_def r_def)
  have quot: "(of_nat a / of_nat b :: rat) = of_nat q + of_nat r / of_nat b"
    using assms by (simp add: a field_simps)
  have bpos: "(0::rat) < of_nat b" using assms by simp
  consider (down) "2 * r < b" | (up) "b < 2 * r" | (tie) "2 * r = b"
    by linarith
  then show ?thesis
  proof cases
    case down
    then have "round_half_even a b = q"
      by (simp add: round_half_even_def q_def r_def)
    moreover have "(of_nat r / of_nat b :: rat) \<le> 1 / 2"
    proof -
      have "(2 * of_nat r :: rat) \<le> of_nat b"
        using down by (metis less_imp_le of_nat_le_iff of_nat_mult of_nat_numeral)
      then show ?thesis using bpos by (simp add: field_simps)
    qed
    moreover have "(0::rat) \<le> of_nat r / of_nat b" by simp
    ultimately show ?thesis by (simp add: quot)
  next
    case up
    then have "round_half_even a b = q + 1"
      by (simp add: round_half_even_def q_def r_def)
    moreover have "(1 / 2 :: rat) \<le> of_nat r / of_nat b"
    proof -
      have "(of_nat b :: rat) \<le> 2 * of_nat r"
        using up by (metis less_imp_le of_nat_le_iff of_nat_mult of_nat_numeral)
      then show ?thesis using bpos by (simp add: field_simps)
    qed
    moreover have "(of_nat r / of_nat b :: rat) \<le> 1"
      using r bpos by (simp add: field_simps)
    ultimately show ?thesis by (simp add: quot)
  next
    case tie
    then have "(of_nat b :: rat) = 2 * of_nat r"
      by (metis of_nat_mult of_nat_numeral)
    then have half: "(of_nat r / of_nat b :: rat) = 1 / 2"
      using bpos by (simp add: field_simps)
    have "round_half_even a b = q \<or> round_half_even a b = q + 1"
      using tie by (simp add: round_half_even_def q_def r_def Let_def)
    then show ?thesis
      by (auto simp: quot half)
  qed
qed


lemma powi_pos: "(0::rat) < 2 powi e"
  by (simp add: zero_less_power_int)

lemma powi_add2: "(2::rat) powi (i + j) = 2 powi i * 2 powi j"
  by (simp add: power_int_add)

lemma of_nat_bitlen_bounds:
  assumes "0 < n"
  shows "(2::rat) powi (int (bitlen n) - 1) \<le> of_nat n" and "(of_nat n :: rat) < 2 powi int (bitlen n)"
proof -
  from bitlen_bounds [OF assms]
  have lo: "2 ^ (bitlen n - 1) \<le> n" and hi: "n < 2 ^ bitlen n" by simp_all
  have pos: "0 < bitlen n"
    using assms by (subst bitlen.simps) simp
  have "(2::rat) powi (int (bitlen n) - 1) = 2 powi int (bitlen n - 1)"
    using pos by (simp add: of_nat_diff)
  also have "\<dots> = of_nat (2 ^ (bitlen n - 1))"
    by simp
  also have "\<dots> \<le> of_nat n"
    using lo by (simp only: of_nat_le_iff)
  finally show "(2::rat) powi (int (bitlen n) - 1) \<le> of_nat n" .
  have "(of_nat n :: rat) < of_nat (2 ^ bitlen n)"
    using hi by (simp only: of_nat_less_iff)
  then show "(of_nat n :: rat) < 2 powi int (bitlen n)"
    by simp
qed

lemma scaled_quotient:
  assumes "0 < b"
  shows "(of_nat (a * 2 ^ nat (- e)) / of_nat (b * 2 ^ nat e) :: rat)
           = (of_nat a / of_nat b) / 2 powi e"
proof -
  have "(of_nat (a * 2 ^ nat (- e)) / of_nat (b * 2 ^ nat e) :: rat)
          = (of_nat a / of_nat b) / (2 ^ nat e / 2 ^ nat (- e))"
    by simp
  then show ?thesis by (simp only: pow2_powi)
qed

lemma scaled_compare:
  "b * 2 ^ nat k \<le> a * 2 ^ nat (- k) \<longleftrightarrow> (of_nat b :: rat) * 2 powi k \<le> of_nat a"
proof -
  have "b * 2 ^ nat k \<le> a * 2 ^ nat (- k)
        \<longleftrightarrow> (of_nat (b * 2 ^ nat k) :: rat) \<le> of_nat (a * 2 ^ nat (- k))"
    by (simp only: of_nat_le_iff)
  also have "\<dots> \<longleftrightarrow> (of_nat b :: rat) * (2 ^ nat k / 2 ^ nat (- k)) \<le> of_nat a"
    by (simp add: field_simps)
  finally show ?thesis by (simp only: pow2_powi)
qed

lemma round_double_exponent:
  assumes "0 < a" "0 < b" "round_double a b = Double m e"
  shows "(2::rat) ^ 52 * 2 powi e \<le> of_nat a / of_nat b"
    and "m = round_half_even (a * 2 ^ nat (- e)) (b * 2 ^ nat e)"
proof -
  define k where "k = int (bitlen a) - int (bitlen b)"
  define x :: rat where "x = of_nat a / of_nat b"
  have bpos: "(0::rat) < of_nat b" and apos: "(0::rat) < of_nat a"
    using assms by simp_all
  define e0 where "e0 = (if b * 2 ^ nat k \<le> a * 2 ^ nat (- k) then k - 52 else k - 53)"
  have "round_double a b = Double (round_half_even (a * 2 ^ nat (- e0)) (b * 2 ^ nat e0)) e0"
    using assms(1) by (simp add: round_double_def Let_def k_def e0_def)
  with assms(3) have "e = e0" and m: "m = round_half_even (a * 2 ^ nat (- e)) (b * 2 ^ nat e)"
    by auto
  then have e: "e = (if b * 2 ^ nat k \<le> a * 2 ^ nat (- k) then k - 52 else k - 53)"
    by (simp add: e0_def)
  show "m = round_half_even (a * 2 ^ nat (- e)) (b * 2 ^ nat e)" by (rule m)
  have lower: "2 powi (k - 1) \<le> x"
  proof -
    have "(of_nat b :: rat) * 2 powi (k - 1)
            \<le> 2 powi int (bitlen b) * 2 powi (k - 1)"
      using of_nat_bitlen_bounds(2) [OF assms(2)] powi_pos [of "k - 1"]
      by (simp add: mult_right_mono)
    also have "\<dots> = 2 powi (int (bitlen b) + (k - 1))"
      by (rule powi_add2 [symmetric])
    also have "int (bitlen b) + (k - 1) = int (bitlen a) - 1"
      by (simp add: k_def)
    also have "(2::rat) powi (int (bitlen a) - 1) \<le> of_nat a"
      by (rule of_nat_bitlen_bounds(1) [OF assms(1)])
    finally show ?thesis
      using bpos by (simp add: x_def field_simps)
  qed
  show "(2::rat) ^ 52 * 2 powi e \<le> of_nat a / of_nat b"
  proof (cases "b * 2 ^ nat k \<le> a * 2 ^ nat (- k)")
    case True
    then have "(of_nat b :: rat) * 2 powi k \<le> of_nat a"
      by (simp only: scaled_compare)
    then have "2 powi k \<le> x"
      using bpos by (simp add: x_def field_simps)
    moreover have "(2::rat) ^ 52 * 2 powi e = 2 powi k"
    proof -
      have "(2::rat) ^ 52 * 2 powi e = 2 powi 52 * 2 powi (k - 52)"
        using True e by simp
      also have "\<dots> = 2 powi (52 + (k - 52))"
        by (rule powi_add2 [symmetric])
      finally show ?thesis by simp
    qed
    ultimately show ?thesis by (simp add: x_def)
  next
    case False
    have "(2::rat) ^ 52 * 2 powi e = 2 powi 52 * 2 powi (k - 53)"
      using False e by simp
    also have "\<dots> = 2 powi (52 + (k - 53))"
      by (rule powi_add2 [symmetric])
    also have "52 + (k - 53) = k - 1"
      by simp
    finally show ?thesis
      using lower by (simp add: x_def)
  qed
qed

lemma round_double_error:
  assumes "0 < b"
  shows "\<bar>double_value (round_double a b) - of_nat a / of_nat b\<bar>
           \<le> (of_nat a / of_nat b) / 2 ^ 53"
proof (cases "a = 0")
  case True
  then show ?thesis by (simp add: round_double_def)
next
  case False
  then have apos: "0 < a" by simp
  obtain m e where rd: "round_double a b = Double m e"
    by (cases "round_double a b") auto
  define x :: rat where "x = of_nat a / of_nat b"
  define p :: rat where "p = 2 powi e"
  have ppos: "0 < p" by (simp add: p_def powi_pos)
  from round_double_exponent [OF apos assms rd]
  have scale: "2 ^ 52 * p \<le> x"
    and m: "m = round_half_even (a * 2 ^ nat (- e)) (b * 2 ^ nat e)"
    by (simp_all add: x_def p_def)
  have bpos: "0 < b * 2 ^ nat e" using assms by simp
  have "\<bar>of_nat m - x / p\<bar> \<le> 1 / 2"
    using round_half_even_near [OF bpos, of "a * 2 ^ nat (- e)"]
    unfolding m scaled_quotient [OF assms] x_def p_def .
  then have "\<bar>of_nat m - x / p\<bar> * p \<le> 1 / 2 * p"
    using ppos by (simp only: mult_le_cancel_right_pos)
  moreover have "\<bar>of_nat m - x / p\<bar> * p = \<bar>of_nat m * p - x\<bar>"
  proof -
    have "\<bar>of_nat m - x / p\<bar> * p = \<bar>(of_nat m - x / p) * p\<bar>"
      using ppos by (simp add: abs_mult)
    also have "(of_nat m - x / p) * p = of_nat m * p - x"
      using ppos by (simp add: field_simps)
    finally show ?thesis .
  qed
  ultimately have "\<bar>of_nat m * p - x\<bar> \<le> p / 2"
    by simp
  also have "p / 2 \<le> x / 2 ^ 53"
    using scale by (simp add: field_simps)
  finally show ?thesis
    unfolding rd double_value_powi x_def p_def .
qed


lemma double_div_of_nat:
  "double_div (double_of_nat h) (double_of_nat t) = round_double h t"
  by (simp add: double_of_nat_def)

lemma double_mul_error:
  "\<bar>double_value (double_mul d (double_of_nat c)) - double_value d * of_nat c\<bar>
     \<le> double_value d * of_nat c / 2 ^ 53"
proof -
  obtain m e where d: "d = Double m e" by (cases d) auto
  have pos: "0 < (2::nat) ^ nat (- e)" by simp
  have exact: "(of_nat (m * c * 2 ^ nat e) / of_nat (2 ^ nat (- e)) :: rat)
                 = double_value d * of_nat c"
    by (simp add: d)
  show ?thesis
    using round_double_error [OF pos, of "m * c * 2 ^ nat e"]
    unfolding exact by (simp add: d double_of_nat_def)
qed

lemma div_bounds_rat:
  assumes "0 < y"
  shows "(of_nat (x div y) :: rat) \<le> of_nat x / of_nat y"
    and "(of_nat x / of_nat y :: rat) < of_nat (x div y) + 1"
proof -
  have ypos: "(0::rat) < of_nat y" using assms by simp
  have "x div y * y \<le> x" by simp
  then have "(of_nat (x div y * y) :: rat) \<le> of_nat x"
    by (simp only: of_nat_le_iff)
  then show "(of_nat (x div y) :: rat) \<le> of_nat x / of_nat y"
    using ypos by (simp add: field_simps)
  have "x < (x div y + 1) * y"
    using assms by (metis Suc_eq_plus1 dividend_less_div_times mult.commute mult_Suc)
  then have "(of_nat x :: rat) < of_nat ((x div y + 1) * y)"
    by (simp only: of_nat_less_iff)
  then show "(of_nat x / of_nat y :: rat) < of_nat (x div y) + 1"
    using ypos by (simp add: field_simps)
qed

lemma tenths_near:
  "(of_nat (tenths d) :: rat) \<le> 10 * double_value d + 1 / 2"
  "10 * double_value d + 1 / 2 < (of_nat (tenths d) :: rat) + 1"
proof -
  obtain m e where d: "d = Double m e" by (cases d) auto
  have pos: "0 < 2 * (2::nat) ^ nat (- e)" by simp
  have exact: "(of_nat (20 * m * 2 ^ nat e + 2 ^ nat (- e)) / of_nat (2 * 2 ^ nat (- e)) :: rat)
                 = 10 * double_value d + 1 / 2"
    by (simp add: d field_simps)
  from div_bounds_rat [OF pos, of "20 * m * 2 ^ nat e + 2 ^ nat (- e)"]
  show "(of_nat (tenths d) :: rat) \<le> 10 * double_value d + 1 / 2"
    and "10 * double_value d + 1 / 2 < (of_nat (tenths d) :: rat) + 1"
    unfolding exact by (simp_all add: d)
qed

lemma hit_rate_value_error:
  assumes "0 < t" "h \<le> t"
  shows "\<bar>double_value (double_mul (double_div (double_of_nat h) (double_of_nat t))
                                    (double_of_nat 100))
          - 100 * of_nat h / of_nat t\<bar> \<le> 201 / 2 ^ 53"
proof -
  define x :: rat where "x = of_nat h / of_nat t"
  define q where "q = double_value (round_double h t)"
  define p where "p = double_value (double_mul (round_double h t) (double_of_nat 100))"
  have x0: "0 \<le> x" and x1: "x \<le> 1"
    using assms by (simp_all add: x_def)
  have eq: "\<bar>q - x\<bar> \<le> x / 9007199254740992"
    using round_double_error [OF assms(1), of h] by (simp add: q_def x_def)
  have ep: "\<bar>p - q * 100\<bar> \<le> q * 100 / 9007199254740992"
    using double_mul_error [of "round_double h t" 100] by (simp add: p_def q_def)
  have q_hi: "q \<le> x + x / 9007199254740992" and q_lo: "x - x / 9007199254740992 \<le> q"
    using eq by linarith+
  have p_hi: "p \<le> q * 100 + q * 100 / 9007199254740992"
    and p_lo: "q * 100 - q * 100 / 9007199254740992 \<le> p"
    using ep by linarith+
  have "p - 100 * x \<le> 201 / 9007199254740992"
    using p_hi q_hi x0 x1 by linarith
  moreover have "- (201 / 9007199254740992) \<le> p - 100 * x"
    using p_lo q_lo x0 x1 by linarith
  ultimately have "\<bar>p - 100 * x\<bar> \<le> 201 / 9007199254740992"
    by linarith
  then show ?thesis
    by (simp add: p_def x_def double_div_of_nat)
qed


lemma hit_rate_tenths:
  assumes "0 < t" "h \<le> t" "t < 2 ^ 32"
  shows "\<bar>(of_nat (tenths (double_mul (double_div (double_of_nat h) (double_of_nat t))
                                        (double_of_nat 100))) :: rat) / 10
          - 100 * of_nat h / of_nat t\<bar> \<le> 1 / 20"
proof -
  define d where "d = double_mul (double_div (double_of_nat h) (double_of_nat t)) (double_of_nat 100)"
  define N :: rat where "N = of_nat (tenths d)"
  define T :: rat where "T = of_nat t"
  define H :: rat where "H = of_nat h"
  define v where "v = double_value d"
  define z :: int where "z = 2 * int (tenths d) * int t - 2000 * int h"
  have Tpos: "0 < T" and Tsmall: "T < 4294967296"
    using assms by (simp_all add: T_def)
  have z: "(of_int z :: rat) = 2 * N * T - 2000 * H"
    by (simp add: z_def N_def T_def H_def)
  have v: "\<bar>v - 100 * H / T\<bar> \<le> 201 / 9007199254740992"
    using hit_rate_value_error [OF assms(1,2)] by (simp add: v_def d_def H_def T_def)
  have n_hi: "N \<le> 10 * v + 1 / 2" and n_lo: "10 * v + 1 / 2 < N + 1"
    using tenths_near [of d] by (simp_all add: N_def v_def)
  have hi: "N - 1000 * H / T \<le> 1 / 2 + 2010 / 9007199254740992"
    using v n_hi by linarith
  have lo: "1000 * H / T - N < 1 / 2 + 2010 / 9007199254740992"
    using v n_lo by linarith
  have "(N - 1000 * H / T) * (2 * T) \<le> (1 / 2 + 2010 / 9007199254740992) * (2 * T)"
    using hi Tpos by (intro mult_right_mono) simp_all
  moreover have "(N - 1000 * H / T) * (2 * T) = of_int z"
    using Tpos by (simp add: z field_simps)
  ultimately have "of_int z \<le> T + 4020 / 9007199254740992 * T"
    by (simp add: field_simps)
  then have "(of_int z :: rat) < T + 1"
    using Tsmall Tpos by linarith
  then have "(of_int z :: rat) < of_int (int t + 1)"
    by (simp add: T_def)
  then have z_hi: "z \<le> int t"
    by (simp only: of_int_less_iff)

  have "(1000 * H / T - N) * (2 * T) < (1 / 2 + 2010 / 9007199254740992) * (2 * T)"
    using lo Tpos by (intro mult_strict_right_mono) simp_all
  moreover have "(1000 * H / T - N) * (2 * T) = - of_int z"
    using Tpos by (simp add: z field_simps)
  ultimately have "- of_int z < T + 4020 / 9007199254740992 * T"
    by (simp add: field_simps)
  then have "(of_int (- z) :: rat) < T + 1"
    using Tsmall Tpos by simp
  then have "(of_int (- z) :: rat) < of_int (int t + 1)"
    by (simp add: T_def)
  then have z_lo: "- z \<le> int t"
    by (simp only: of_int_less_iff)

  have "(of_int z :: rat) \<le> of_int (int t)" "(of_int (- z) :: rat) \<le> of_int (int t)"
    using z_hi z_lo by (simp_all only: of_int_le_iff)
  then have "2 * N * T - 2000 * H \<le> T" "- (2 * N * T - 2000 * H) \<le> T"
    by (simp_all add: z T_def)
  then have "\<bar>2 * N * T - 2000 * H\<bar> \<le> T"
    by linarith
  moreover have "\<bar>N / 10 - 100 * H / T\<bar> = \<bar>2 * N * T - 2000 * H\<bar> / (20 * T)"
  proof -
    have "N / 10 - 100 * H / T = (2 * N * T - 2000 * H) / (20 * T)"
      using Tpos by (simp add: field_simps)
    then show ?thesis
      using Tpos by (simp add: abs_divide)
  qed
  ultimately have "\<bar>N / 10 - 100 * H / T\<bar> \<le> 1 / 20"
    using Tpos by (simp add: field_simps)
  then show ?thesis
    by (simp add: N_def H_def T_def d_def)
qed



section \<open>Properties of the aggregation\<close>

lemma has_result_exclusive:
  "has_result r e \<Longrightarrow> has_result r' e \<Longrightarrow> r = r'"
  by (simp add: has_result_def)

lemma count_events_tally:
  assumes "JNull \<notin> set es"
  shows "count_events es (l, r, m, er, mc) =
           Inr (l + length (filter (has_result ''local_hit'') es),
                r + length (filter (has_result ''remote_hit'') es),
                m + length (filter (has_result ''miss'') es),
                er + length (filter (has_result ''error'') es),
                mc @ misses_of es)"
  using assms
proof (induction es arbitrary: l r m er mc)
  case Nil
  then show ?case by (simp add: misses_of_def)
next
  case (Cons e es)
  then have e: "e \<noteq> JNull" and es: "JNull \<notin> set es" by auto
  note IH = Cons.IH [OF es]
  consider (local) "has_result ''local_hit'' e"
    | (remote) "has_result ''remote_hit'' e"
    | (miss) "has_result ''miss'' e"
    | (error) "has_result ''error'' e"
    | (other) "\<not> has_result ''local_hit'' e" "\<not> has_result ''remote_hit'' e"
              "\<not> has_result ''miss'' e" "\<not> has_result ''error'' e"
    by blast
  then show ?case
  proof cases
    case local
    then have "\<not> has_result ''remote_hit'' e" "\<not> has_result ''miss'' e" "\<not> has_result ''error'' e"
      by (auto dest: has_result_exclusive)
    with local e show ?thesis
      by (simp add: IH misses_of_def) (simp add: has_result_def)
  next
    case remote
    then have "\<not> has_result ''local_hit'' e" "\<not> has_result ''miss'' e" "\<not> has_result ''error'' e"
      by (auto dest: has_result_exclusive)
    with remote e show ?thesis
      by (simp add: IH misses_of_def) (simp add: has_result_def)
  next
    case miss
    then have "\<not> has_result ''local_hit'' e" "\<not> has_result ''remote_hit'' e" "\<not> has_result ''error'' e"
      by (auto dest: has_result_exclusive)
    with miss e show ?thesis
      by (simp add: IH misses_of_def miss_entry_def) (simp add: has_result_def)
  next
    case error
    then have "\<not> has_result ''local_hit'' e" "\<not> has_result ''remote_hit'' e" "\<not> has_result ''miss'' e"
      by (auto dest: has_result_exclusive)
    with error e show ?thesis
      by (simp add: IH misses_of_def) (simp add: has_result_def)
  next
    case other
    with e show ?thesis
      by (simp add: IH misses_of_def) (simp add: has_result_def)
  qed
qed

lemma count_events_null:
  assumes "JNull \<in> set es"
  shows "\<exists>msg. count_events es acc = Inl (TypeError msg)"
  using assms
proof (induction es arbitrary: acc)
  case Nil
  then show ?case by simp
next
  case (Cons e es)
  obtain l r m er mc where acc: "acc = (l, r, m, er, mc)"
    by (cases acc) auto
  show ?case
  proof (cases "e = JNull")
    case True
    then show ?thesis by (simp add: acc)
  next
    case False
    then have "JNull \<in> set es" using Cons.prems by auto
    then have "\<And>acc'. \<exists>msg. count_events es acc' = Inl (TypeError msg)"
      using Cons.IH by blast
    then show ?thesis using False by (simp add: acc)
  qed
qed

lemma insert_sorted_insort:
  "insert_sorted (\<lambda>a b. f b - f a) x ys = insort_key (\<lambda>c. - f c) x ys"
  for f :: "'a \<Rightarrow> int"
  by (induction ys) auto

lemma Array_sort_sort_key:
  "Array_sort (\<lambda>a b. f b - f a) xs = sort_key (\<lambda>c. - f c) xs"
  for f :: "'a \<Rightarrow> int"
  unfolding Array_sort_def sort_key_def
  by (induction xs) (simp_all add: insert_sorted_insort)

lemma sort_missedCrates_spec:
  assumes "sort_missedCrates mc = Returns sorted'"
  shows "mset sorted' = mset mc"
    and "sorted_wrt (\<lambda>a b. elapsed b \<le> elapsed a) sorted'"
    and "filter (\<lambda>c. elapsed c = t) sorted' = filter (\<lambda>c. elapsed c = t) mc"
proof -
  consider (short) "length mc \<le> 1" "sorted' = mc"
    | (long) "sorted' = sort_key (\<lambda>c. - elapsed c) mc"
    using assms by (auto simp: sort_missedCrates_def Array_sort_sort_key split: if_splits)
  note cases = this
  show "mset sorted' = mset mc"
    using cases by cases auto
  show "sorted_wrt (\<lambda>a b. elapsed b \<le> elapsed a) sorted'"
  proof (use cases in cases)
    case short
    then show ?thesis by (cases mc) auto
  next
    case long
    have "sorted (map (\<lambda>c. - elapsed c) sorted')"
      unfolding long by (rule sorted_sort_key)
    then show ?thesis
      by (simp add: sorted_map sorted_wrt_iff_nth_less)
  qed
  show "filter (\<lambda>c. elapsed c = t) sorted' = filter (\<lambda>c. elapsed c = t) mc"
  proof (use cases in cases)
    case short
    then show ?thesis by simp
  next
    case long
    have "filter (\<lambda>c. - elapsed c = - t) (sort_key (\<lambda>c. - elapsed c) mc)
          = filter (\<lambda>c. - elapsed c = - t) mc"
      by (rule sort_key_stable)
    then show ?thesis by (simp add: long)
  qed
qed


lemma aggregate_Returns:
  assumes "aggregate events = Returns st"
  shows "JNull \<notin> set events"
    and "localHits st = length (filter (has_result ''local_hit'') events)"
    and "remoteHits st = length (filter (has_result ''remote_hit'') events)"
    and "misses st = length (filter (has_result ''miss'') events)"
    and "errors st = length (filter (has_result ''error'') events)"
    and "total st = localHits st + remoteHits st + misses st"
    and "hits st = localHits st + remoteHits st"
    and "hitRate st =
           (if 0 < total st
            then toFixed1 (double_mul
                   (double_div (double_of_nat (hits st)) (double_of_nat (total st)))
                   (double_of_nat 100))
            else ''0.0'')"
    and "sort_missedCrates (misses_of events) = Returns (missedCrates st)"
proof -
  show null: "JNull \<notin> set events"
  proof
    assume "JNull \<in> set events"
    then obtain msg where "count_events events (0, 0, 0, 0, []) = Inl (TypeError msg)"
      using count_events_null by blast
    then show False using assms by (simp add: aggregate_def)
  qed
  note tally = count_events_tally [OF null, of 0 0 0 0 "[]"]
  have st: "st = \<lparr> total = length (filter (has_result ''local_hit'') events)
                        + length (filter (has_result ''remote_hit'') events)
                        + length (filter (has_result ''miss'') events),
                    localHits = length (filter (has_result ''local_hit'') events),
                    remoteHits = length (filter (has_result ''remote_hit'') events),
                    hits = length (filter (has_result ''local_hit'') events)
                        + length (filter (has_result ''remote_hit'') events),
                    misses = length (filter (has_result ''miss'') events),
                    errors = length (filter (has_result ''error'') events),
                    hitRate = hitRate st,
                    missedCrates = missedCrates st \<rparr>"
    and rest: "hitRate st =
           (if 0 < total st
            then toFixed1 (double_mul
                   (double_div (double_of_nat (hits st)) (double_of_nat (total st)))
                   (double_of_nat 100))
            else ''0.0'')"
       "sort_missedCrates (misses_of events) = Returns (missedCrates st)"
    using assms unfolding aggregate_def tally
    by (auto simp: Let_def split: outcome.splits)
  show "hitRate st =
           (if 0 < total st
            then toFixed1 (double_mul
                   (double_div (double_of_nat (hits st)) (double_of_nat (total st)))
                   (double_of_nat 100))
            else ''0.0'')"
    by (rule rest)
  show "sort_missedCrates (misses_of events) = Returns (missedCrates st)"
    by (rule rest)
  show "localHits st = length (filter (has_result ''local_hit'') events)"
    by (subst st) simp
  show "remoteHits st = length (filter (has_result ''remote_hit'') events)"
    by (subst st) simp
  show "misses st = length (filter (has_result ''miss'') events)"
    by (subst st) simp
  show "errors st = length (filter (has_result ''error'') events)"
    by (subst st) simp
  show "total st = localHits st + remoteHits st + misses st"
    by (subst (1 2 3 4) st) simp
  show "hits st = localHits st + remoteHits st"
    by (subst (1 2 3) st) simp
qed

lemma outcome_record_entry:
  assumes "outcome_record e"
  shows "is_number (elapsed_ms (miss_entry e))"
proof -
  obtain kvs where e: "e = JObj kvs"
    using assms by (cases e) auto
  then have "count_field (map_of kvs ''elapsed_ms'')"
    using assms by simp
  then show ?thesis
    by (cases "map_of kvs ''elapsed_ms''" rule: count_field.cases)
       (auto simp: e miss_entry_def or_default_def)
qed

lemma aggregate_total:
  assumes "\<forall>e \<in> set events. outcome_record e"
  shows "\<exists>st. aggregate events = Returns st"
proof -
  have null: "JNull \<notin> set events"
    using assms by auto
  have "list_all (\<lambda>c. is_number (elapsed_ms c)) (misses_of events)"
    using assms by (auto simp: misses_of_def list_all_iff outcome_record_entry)
  then have "\<exists>sorted'. sort_missedCrates (misses_of events) = Returns sorted'"
    by (simp add: sort_missedCrates_def)
  then obtain sorted' where "sort_missedCrates (misses_of events) = Returns sorted'"
    by blast
  then show ?thesis
    unfolding aggregate_def count_events_tally [OF null, of 0 0 0 0 "[]"]
    by (simp add: Let_def)
qed

text \<open>Evaluation of the number model on numerals.\<close>

lemma bitlen_0 [simp]: "bitlen 0 = 0"
  by (simp add: bitlen.simps)

lemma bitlen_Suc_0 [simp]: "bitlen (Suc 0) = 1"
  by (simp add: bitlen.simps)

lemma bitlen_1 [simp]: "bitlen 1 = 1"
  by (simp add: bitlen.simps)

lemma bitlen_Bit0 [simp]: "bitlen (numeral (Num.Bit0 k)) = Suc (bitlen (numeral k))"
  by (subst bitlen.simps) simp

lemma bitlen_Bit1 [simp]: "bitlen (numeral (Num.Bit1 k)) = Suc (bitlen (numeral k))"
proof -
  have "(numeral (Num.Bit1 k) :: nat) div 2 = numeral k"
    by simp
  then show ?thesis
    by (subst bitlen.simps) simp
qed

lemma nat_toString_digit: "n < 10 \<Longrightarrow> nat_toString n = [''0123456789'' ! n]"
  by (simp add: nat_toString.simps)

lemma nat_toString_more:
  "10 \<le> n \<Longrightarrow> nat_toString n = nat_toString (n div 10) @ [''0123456789'' ! (n mod 10)]"
  by (subst nat_toString.simps) simp

lemmas eval_numbers =
  round_double_def round_half_even_def double_of_nat_def toFixed1_def Let_def
  nat_toString_digit nat_toString_more

lemmas eval_events =
  aggregate_def sort_missedCrates_def Array_sort_def hit_event_def miss_event_def
  or_default_def

lemma hit_rate_9_of_10:
  "toFixed1 (double_mul (double_div (double_of_nat 9) (double_of_nat 10)) (double_of_nat 100)) = ''90.0''"
  by (simp add: eval_numbers)

lemma hit_rate_0_of_1:
  "toFixed1 (double_mul (double_div (double_of_nat 0) (double_of_nat 1)) (double_of_nat 100)) = ''0.0''"
  by (simp add: eval_numbers)

text \<open>
  Claim C2, as amended. For a log with at least one record, \<^verbatim>\<open>parseEvents\<close> returns what the
  aggregation of its records returns, and the aggregation returns statistics when these are
  outcome records. In the statistics the four counters count the records of each result,
  \<^verbatim>\<open>total\<close> is the sum of the local hits, the remote hits and the misses (the errors are not
  in it), \<^verbatim>\<open>hits\<close> is the sum of the local and the remote hits and is at most \<^verbatim>\<open>total\<close>, and
  \<^verbatim>\<open>hitRate\<close> is \<^verbatim>\<open>"0.0"\<close> when \<^verbatim>\<open>total\<close> is 0, without a division, and otherwise
  \<^verbatim>\<open>((hits / total) * 100).toFixed(1)\<close>: the digits of a number of tenths \<open>n\<close>, with \<open>n / 10\<close>
  within one twentieth of the exact \<open>100 * hits / total\<close> (for a log of fewer than \<open>2 ^ 32\<close>
  records, the bound on the length of an array). For a log without a record \<^verbatim>\<open>parseEvents\<close>
  returns \<^verbatim>\<open>null\<close>: no statistics are made.
\<close>

theorem aggregate_invariant:
  "(events \<noteq> [] \<longrightarrow>
      (\<forall>JSON_parse raw. decodable_records JSON_parse raw = events \<longrightarrow>
          parseEvents JSON_parse (Content raw) = reported (aggregate events))
    \<and> ((\<forall>e \<in> set events. outcome_record e) \<longrightarrow> (\<exists>st. aggregate events = Returns st))
    \<and> (\<forall>st. aggregate events = Returns st \<longrightarrow>
         localHits st = length (filter (has_result ''local_hit'') events)
       \<and> remoteHits st = length (filter (has_result ''remote_hit'') events)
       \<and> misses st = length (filter (has_result ''miss'') events)
       \<and> errors st = length (filter (has_result ''error'') events)
       \<and> total st = localHits st + remoteHits st + misses st
       \<and> hits st = localHits st + remoteHits st
       \<and> hits st \<le> total st
       \<and> (total st = 0 \<longrightarrow> hitRate st = ''0.0'')
       \<and> (0 < total st \<longrightarrow>
            hitRate st = toFixed1 (double_mul
                           (double_div (double_of_nat (hits st)) (double_of_nat (total st)))
                           (double_of_nat 100))
          \<and> (\<exists>n. hitRate st = nat_toString (n div 10) @ ''.'' @ nat_toString (n mod 10)
                \<and> (length events < 2 ^ 32 \<longrightarrow>
                     \<bar>of_nat n / 10 - 100 * of_nat (hits st) / of_nat (total st)\<bar>
                       \<le> (1 / 20 :: rat))))))
   \<and> (\<forall>JSON_parse raw. decodable_records JSON_parse raw = [] \<longrightarrow>
         parseEvents JSON_parse (Content raw) = Returns None)"
proof (intro conjI allI impI)
  fix JSON_parse raw
  assume "events \<noteq> []" "decodable_records JSON_parse raw = events"
  then show "parseEvents JSON_parse (Content raw) = reported (aggregate events)"
    by (simp add: parseEvents_Content)
next
  assume "\<forall>e \<in> set events. outcome_record e"
  then show "\<exists>st. aggregate events = Returns st"
    by (rule aggregate_total)
next
  fix JSON_parse raw
  assume "decodable_records JSON_parse raw = []"
  then show "parseEvents JSON_parse (Content raw) = Returns None"
    by (simp add: parseEvents_Content)
next
  fix st
  assume ret: "aggregate events = Returns st"
  note facts = aggregate_Returns [OF ret]
  show "localHits st = length (filter (has_result ''local_hit'') events)"
    and "remoteHits st = length (filter (has_result ''remote_hit'') events)"
    and "misses st = length (filter (has_result ''miss'') events)"
    and "errors st = length (filter (has_result ''error'') events)"
    and tot: "total st = localHits st + remoteHits st + misses st"
    and hit: "hits st = localHits st + remoteHits st"
    by (rule facts)+
  show le: "hits st \<le> total st"
    by (simp add: tot hit)
  show "hitRate st = ''0.0''" if "total st = 0"
    using that facts(8) by simp
  show rate: "hitRate st = toFixed1 (double_mul
                         (double_div (double_of_nat (hits st)) (double_of_nat (total st)))
                         (double_of_nat 100))" if "0 < total st"
    using that facts(8) by simp
  show "\<exists>n. hitRate st = nat_toString (n div 10) @ ''.'' @ nat_toString (n mod 10)
              \<and> (length events < 2 ^ 32 \<longrightarrow>
                   \<bar>of_nat n / 10 - 100 * of_nat (hits st) / of_nat (total st)\<bar>
                     \<le> (1 / 20 :: rat))" if pos: "0 < total st"
  proof (intro exI conjI impI)
    let ?d = "double_mul (double_div (double_of_nat (hits st)) (double_of_nat (total st)))
                (double_of_nat 100)"
    show "hitRate st = nat_toString (tenths ?d div 10) @ ''.'' @ nat_toString (tenths ?d mod 10)"
      by (simp add: rate [OF pos] toFixed1_def)
    assume len: "length events < 2 ^ 32"
    have "length (filter (has_result ''local_hit'') events)
           + length (filter (has_result ''remote_hit'') events)
           + length (filter (has_result ''miss'') events)
         = length (filter (\<lambda>e. has_result ''local_hit'' e \<or> has_result ''remote_hit'' e
                                \<or> has_result ''miss'' e) events)"
      by (induction events) (auto dest: has_result_exclusive)
    also have "\<dots> \<le> length events"
      by (rule length_filter_le)
    finally have "total st \<le> length events"
      by (simp add: tot facts(2,3,4))
    then have "total st < 2 ^ 32"
      using len by simp
    from hit_rate_tenths [OF pos le this]
    show "\<bar>of_nat (tenths ?d) / 10 - 100 * of_nat (hits st) / of_nat (total st)\<bar>
            \<le> (1 / 20 :: rat)" .
  qed
qed

lemma aggregate_scenario: "aggregate scenario_events = Returns scenario_stats"
proof -
  have "count_events scenario_events (0, 0, 0, 0, []) =
          Inr (7, 2, 1, 0, [\<lparr> name = Some (JStr ''foo''), elapsed_ms = JNum 4200,
                               size_bytes = JNum 1048576, cache_key = JStr [] \<rparr>])"
    by (simp add: scenario_events_def hit_event_def miss_event_def or_default_def)
  then show ?thesis
    by (simp add: aggregate_def sort_missedCrates_def scenario_stats_def hit_rate_9_of_10)
qed

lemma decodable_error_log:
  "decodable_records example_parse error_log = [JObj [(''result'', JStr ''error'')]]"
  by (simp add: decodable_records_def error_log_def trim_def is_space_def
        List.map_filter_simps example_parse_def)

lemma aggregate_error:
  "aggregate [JObj [(''result'', JStr ''error'')]] =
     Returns \<lparr> total = 0, localHits = 0, remoteHits = 0, hits = 0, misses = 0, errors = 1,
               hitRate = ''0.0'', missedCrates = [] \<rparr>"
  by (simp add: aggregate_def sort_missedCrates_def)

theorem aggregate_invariant_witness:
  "parseEvents example_parse (Content error_log) =
     Returns (Some \<lparr> total = 0, localHits = 0, remoteHits = 0, hits = 0, misses = 0, errors = 1,
                     hitRate = ''0.0'', missedCrates = [] \<rparr>)
   \<and> aggregate scenario_events = Returns scenario_stats
   \<and> total scenario_stats = localHits scenario_stats + remoteHits scenario_stats + misses scenario_stats
   \<and> hits scenario_stats \<le> total scenario_stats
   \<and> total scenario_stats = 10
   \<and> hitRate scenario_stats = ''90.0''"
proof -
  let ?err = "[JObj [(''result'', JStr ''error'')]]"
  have "?err \<noteq> []" by simp
  from aggregate_invariant [of ?err, THEN conjunct1, rule_format, OF this]
  have link: "\<forall>JSON_parse raw. decodable_records JSON_parse raw = ?err \<longrightarrow>
          parseEvents JSON_parse (Content raw) = reported (aggregate ?err)"
    by blast
  from link decodable_error_log
  have 1: "parseEvents example_parse (Content error_log) = reported (aggregate ?err)"
    by blast
  have 2: "parseEvents example_parse (Content error_log) =
     Returns (Some \<lparr> total = 0, localHits = 0, remoteHits = 0, hits = 0, misses = 0, errors = 1,
                     hitRate = ''0.0'', missedCrates = [] \<rparr>)"
    unfolding 1 by (simp add: aggregate_error)
  have "scenario_events \<noteq> []" by (simp add: scenario_events_def)
  from aggregate_invariant [of scenario_events, THEN conjunct1, rule_format, OF this]
  have "\<forall>st. aggregate scenario_events = Returns st \<longrightarrow>
           total st = localHits st + remoteHits st + misses st \<and> hits st \<le> total st"
    by blast
  with aggregate_scenario
  have 3: "total scenario_stats = localHits scenario_stats + remoteHits scenario_stats + misses scenario_stats
      \<and> hits scenario_stats \<le> total scenario_stats"
    by blast
  have 4: "total scenario_stats = 10 \<and> hitRate scenario_stats = ''90.0''"
    by (simp add: scenario_stats_def)
  from 2 3 4 aggregate_scenario show ?thesis by blast
qed

text \<open>
  The claim as first stated fails for the empty sequence of records: \<^verbatim>\<open>parseEvents\<close> returns
  \<^verbatim>\<open>null\<close> there, and not statistics with a total of 0 and the rate \<^verbatim>\<open>"0.0"\<close>.
\<close>

theorem aggregate_invariant_counterexample:
  "decodable_records example_parse [] = []
   \<and> parseEvents example_parse (Content []) = Returns None
   \<and> decodable_records example_parse ''{\"result\":\"mi'' = []
   \<and> parseEvents example_parse (Content ''{\"result\":\"mi'') = Returns None"
proof -
  have 1: "decodable_records example_parse [] = []"
    by (simp add: decodable_records_def trim_def List.map_filter_simps)
  have 2: "decodable_records example_parse ''{\"result\":\"mi'' = []"
    by (simp add: decodable_records_def trim_def is_space_def List.map_filter_simps
          example_parse_def)
  show ?thesis
    by (simp add: parseEvents_Content 1 2)
qed

text \<open>
  Claim C5. Whenever the aggregation returns statistics, \<^verbatim>\<open>missedCrates\<close> holds exactly the
  entries of the miss records, each as often as it was met; it is in non-increasing order of
  \<^verbatim>\<open>elapsed_ms\<close>; and for every time the entries with that time are in the order in which
  they were met. The aggregation returns for every sequence of outcome records, and all the
  times are then numbers.
\<close>

theorem aggregate_topMisses_sorted:
  "(\<forall>st. aggregate events = Returns st \<longrightarrow>
       mset (missedCrates st) = mset (misses_of events)
     \<and> sorted_wrt (\<lambda>a b. elapsed b \<le> elapsed a) (missedCrates st)
     \<and> (\<forall>t. filter (\<lambda>c. elapsed c = t) (missedCrates st)
              = filter (\<lambda>c. elapsed c = t) (misses_of events)))
   \<and> ((\<forall>e \<in> set events. outcome_record e) \<longrightarrow>
        (\<exists>st. aggregate events = Returns st)
      \<and> list_all (\<lambda>c. is_number (elapsed_ms c)) (misses_of events))"
proof (intro conjI allI impI)
  fix st t
  assume "aggregate events = Returns st"
  then have sorted: "sort_missedCrates (misses_of events) = Returns (missedCrates st)"
    by (rule aggregate_Returns)
  show "mset (missedCrates st) = mset (misses_of events)"
    and "sorted_wrt (\<lambda>a b. elapsed b \<le> elapsed a) (missedCrates st)"
    and "filter (\<lambda>c. elapsed c = t) (missedCrates st)
              = filter (\<lambda>c. elapsed c = t) (misses_of events)"
    by (rule sort_missedCrates_spec [OF sorted])+
next
  assume records: "\<forall>e \<in> set events. outcome_record e"
  then show "\<exists>st. aggregate events = Returns st"
    by (rule aggregate_total)
  show "list_all (\<lambda>c. is_number (elapsed_ms c)) (misses_of events)"
    using records by (auto simp: misses_of_def list_all_iff outcome_record_entry)
qed

lemma aggregate_tied: "aggregate tied_events = Returns tied_stats"
proof -
  have rate: "toFixed1 (double_mul (double_div (double_of_nat (Suc 0)) (double_of_nat 6))
                 (double_of_nat 100)) = ''16.7''"
    by (simp add: eval_numbers)
  have "count_events tied_events (0, 0, 0, 0, []) =
          Inr (1, 0, 5, 0,
            [\<lparr> name = Some (JStr ''a''), elapsed_ms = JNum 5, size_bytes = JNum 1, cache_key = JStr [] \<rparr>,
             \<lparr> name = Some (JStr ''b''), elapsed_ms = JNum 7, size_bytes = JNum 2, cache_key = JStr [] \<rparr>,
             \<lparr> name = Some (JStr ''c''), elapsed_ms = JNum 5, size_bytes = JNum 3, cache_key = JStr [] \<rparr>,
             \<lparr> name = Some (JStr ''d''), elapsed_ms = JNum 0, size_bytes = JNum 0, cache_key = JStr [] \<rparr>,
             \<lparr> name = Some (JStr ''e''), elapsed_ms = JNum 7, size_bytes = JNum 0, cache_key = JStr [] \<rparr>])"
    by (simp add: tied_events_def hit_event_def miss_event_def or_default_def)
  then show ?thesis
    by (simp add: aggregate_def sort_missedCrates_def Array_sort_def tied_stats_def
        tied_misses_def rate)
qed

theorem aggregate_topMisses_sorted_witness:
  "aggregate tied_events = Returns tied_stats
   \<and> map name (missedCrates tied_stats)
       = [Some (JStr ''b''), Some (JStr ''e''), Some (JStr ''a''), Some (JStr ''c''), Some (JStr ''d'')]
   \<and> sorted_wrt (\<lambda>a b. elapsed b \<le> elapsed a) (missedCrates tied_stats)
   \<and> map name (filter (\<lambda>c. elapsed c = 7) (misses_of tied_events))
       = [Some (JStr ''b''), Some (JStr ''e'')]"
proof -
  note t = aggregate_topMisses_sorted [of tied_events, THEN conjunct1, rule_format, OF aggregate_tied]
  have "filter (\<lambda>c. elapsed c = 7) (missedCrates tied_stats)
          = filter (\<lambda>c. elapsed c = 7) (misses_of tied_events)"
    using t by blast
  moreover have "map name (filter (\<lambda>c. elapsed c = 7) (missedCrates tied_stats))
          = [Some (JStr ''b''), Some (JStr ''e'')]"
    by (simp add: tied_stats_def tied_misses_def)
  ultimately have "map name (filter (\<lambda>c. elapsed c = 7) (misses_of tied_events))
       = [Some (JStr ''b''), Some (JStr ''e'')]"
    by simp
  moreover have "sorted_wrt (\<lambda>a b. elapsed b \<le> elapsed a) (missedCrates tied_stats)"
    using t by blast
  moreover have "map name (missedCrates tied_stats)
       = [Some (JStr ''b''), Some (JStr ''e''), Some (JStr ''a''), Some (JStr ''c''), Some (JStr ''d'')]"
    by (simp add: tied_stats_def tied_misses_def)
  ultimately show ?thesis
    using aggregate_tied by simp
qed





text \<open>
  The aggregation checks no type: outside the data model, a miss whose \<^verbatim>\<open>elapsed_ms\<close> is a
  string that is not empty keeps the string.
\<close>

lemma aggregate_untyped_time:
  "aggregate [untyped_event] =
     Returns \<lparr> total = 1, localHits = 0, remoteHits = 0, hits = 0, misses = 1, errors = 0,
               hitRate = ''0.0'',
               missedCrates = [\<lparr> name = Some (JStr ''foo''), elapsed_ms = JStr ''slow'',
                                 size_bytes = JNum 0, cache_key = JStr [] \<rparr>] \<rparr>
   \<and> \<not> is_number (JStr ''slow'')"
proof -
  have "toFixed1 (double_mul (double_div (double_of_nat 0) (double_of_nat (Suc 0)))
          (double_of_nat 100)) = ''0.0''"
    by (simp add: eval_numbers)
  moreover have "count_events [untyped_event] (0, 0, 0, 0, []) =
          Inr (0, 0, 1, 0, [\<lparr> name = Some (JStr ''foo''), elapsed_ms = JStr ''slow'',
                                 size_bytes = JNum 0, cache_key = JStr [] \<rparr>])"
    by (simp add: untyped_event_def or_default_def)
  ultimately show ?thesis
    by (simp add: aggregate_def sort_missedCrates_def)
qed

section \<open>Properties of \<^verbatim>\<open>parseEvents\<close> on a torn log\<close>






section \<open>Properties of the report\<close>

lemma floor_log_1024_small [simp]: "n < 1024 \<Longrightarrow> floor_log_1024 n = 0"
  by (simp add: floor_log_1024.simps)

lemma floor_log_1024_large [simp]:
  "1024 \<le> n \<Longrightarrow> floor_log_1024 n = Suc (floor_log_1024 (n div 1024))"
  by (subst floor_log_1024.simps) simp

lemmas eval_format =
  formatMs_def unit_at_def units_def int_toString_def eval_numbers

lemma formatBytes_positive:
  "0 < bytes \<Longrightarrow> floor_log_1024 (nat bytes) = i \<Longrightarrow>
   formatBytes bytes =
     toFixed1 (double_div (double_of_nat (nat bytes)) (double_of_nat (1024 ^ i))) @ '' '' @ unit_at i"
  by (simp add: formatBytes_def Let_def)

lemma unit_at_values:
  "unit_at 0 = ''B''" "unit_at (Suc 0) = ''KB''" "unit_at 2 = ''MB''" "unit_at 3 = ''GB''"
  "unit_at 4 = ''undefined''"
  by (simp_all add: unit_at_def units_def)

lemma formatMs_examples:
  "formatMs 850 = ''850ms''"
  "formatMs 2500 = ''2.5s''"
  "formatMs 4200 = ''4.2s''"
  by (simp_all add: eval_format)

lemma formatBytes_examples:
  "formatBytes 0 = ''0 B''"
  "formatBytes 1536 = ''1.5 KB''"
  "formatBytes 1048576 = ''1.0 MB''"
proof -
  show "formatBytes 0 = ''0 B''"
    by (simp add: formatBytes_def)
  have "toFixed1 (double_div (double_of_nat 1536) (double_of_nat 1024)) = ''1.5''"
    by (simp add: eval_numbers)
  then show "formatBytes 1536 = ''1.5 KB''"
    by (simp add: formatBytes_positive [where i = 1] unit_at_values)
  have "toFixed1 (double_div (double_of_nat 1048576) (double_of_nat 1048576)) = ''1.0''"
    by (simp add: eval_numbers)
  then show "formatBytes 1048576 = ''1.0 MB''"
    by (simp add: formatBytes_positive [where i = 2] unit_at_values)
qed

text \<open>
  Claim C7 fails for a size of \<open>1024 ^ 4\<close> bytes or more: the index of the unit is 4 or more,
  past the end of \<^verbatim>\<open>units\<close>, and the unit printed is \<^verbatim>\<open>undefined\<close>. For two tebibytes:
\<close>

theorem formatBytes_beyond_units:
  "formatBytes 2199023255552 = ''2.0 undefined''"
proof -
  have "toFixed1 (double_div (double_of_nat 2199023255552) (double_of_nat 1099511627776)) = ''2.0''"
    by (simp add: eval_numbers)
  then show ?thesis
    by (simp add: formatBytes_positive [where i = 4] unit_at_values)
qed

theorem formatBytes_beyond_units_witness:
  "formatBytes 2199023255552 \<noteq> ''2048.0 GB''"
  using formatBytes_beyond_units by simp

lemma miss_row_typed:
  assumes "typed_entry c"
  shows "miss_row hasKeys c = Returns (row_text hasKeys c)"
proof -
  obtain t where t: "elapsed_ms c = JNum t"
    using assms by (cases "elapsed_ms c") (auto simp: typed_entry_def)
  obtain s where s: "size_bytes c = JNum s"
    using assms by (cases "size_bytes c") (auto simp: typed_entry_def)
  obtain k where k: "cache_key c = JStr k"
    using assms by (cases "cache_key c") (auto simp: typed_entry_def)
  have "string_field (name c)"
    using assms by (simp add: typed_entry_def)
  then show ?thesis
    by (cases "name c" rule: string_field.cases)
       (simp_all add: miss_row_def row_text_def t s k)
qed

lemma push_rows_typed:
  assumes "list_all typed_entry cs"
  shows "push_rows hasKeys cs lines = Returns (lines @ map (row_text hasKeys) cs)"
  using assms by (induction cs arbitrary: lines) (simp_all add: miss_row_typed)

lemma typed_truthy_key:
  assumes "list_all typed_entry cs"
  shows "list_ex (\<lambda>c. truthy (cache_key c)) cs
           = list_ex (\<lambda>c. string_value (cache_key c) \<noteq> []) cs"
  using assms
proof (induction cs)
  case Nil
  then show ?case by simp
next
  case (Cons c cs)
  then obtain k where "cache_key c = JStr k"
    by (cases "cache_key c") (auto simp: typed_entry_def)
  then show ?case using Cons by simp
qed

lemma stats_lines_typed:
  assumes "missedCrates st \<noteq> []" and "list_all typed_entry (take 10 (missedCrates st))"
  shows "stats_lines st backend duration =
     Returns (metric_lines st backend duration
       @ [[], ''<details>'',
          ''<summary>Cache misses ('' @ nat_toString (misses st) @ '' crates)</summary>'', []]
       @ table_header (list_ex (\<lambda>c. string_value (cache_key c) \<noteq> []) (take 10 (missedCrates st)))
       @ map (row_text (list_ex (\<lambda>c. string_value (cache_key c) \<noteq> []) (take 10 (missedCrates st))))
             (take 10 (missedCrates st))
       @ (if 10 < length (missedCrates st)
          then [more_row (list_ex (\<lambda>c. string_value (cache_key c) \<noteq> []) (take 10 (missedCrates st)))
                  (length (missedCrates st) - 10)]
          else [])
       @ [[], ''</details>''])"
  using assms
  by (simp add: stats_lines_def Let_def push_rows_typed typed_truthy_key)

lemma digits_nat_toString: "set (nat_toString n) \<subseteq> set ''0123456789''"
proof (induction n rule: nat_toString.induct)
  case (1 n)
  have digit: "''0123456789'' ! k \<in> set ''0123456789''" if "k < 10" for k
    using that by (intro nth_mem) simp
  show ?case
  proof (cases "n < 10")
    case True
    then show ?thesis
      using digit [of n] by (subst nat_toString.simps) simp
  next
    case False
    have "n mod 10 < 10" by simp
    then have "''0123456789'' ! (n mod 10) \<in> set ''0123456789''"
      by (rule digit)
    then show ?thesis
      using False "1.IH" by (subst nat_toString.simps) simp
  qed
qed

lemma no_bar_nat_toString: "filter (\<lambda>ch. ch = CHR ''|'') (nat_toString n) = []"
proof -
  have "CHR ''|'' \<notin> set ''0123456789''" by simp
  then have "CHR ''|'' \<notin> set (nat_toString n)"
    using digits_nat_toString [of n] by blast
  then have "\<forall>ch \<in> set (nat_toString n). \<not> ch = CHR ''|''"
    by blast
  then show ?thesis
    by (simp only: filter_False)
qed

lemma more_row_text:
  "more_row True n = ''| *... '' @ nat_toString n @ '' more* | | | |''"
  "more_row False n = ''| *... '' @ nat_toString n @ '' more* | | |''"
proof -
  have three: "replicate 3 x = [x, x, x]" and two: "replicate 2 x = [x, x]" for x :: string
    by (simp_all add: numeral_3_eq_3 numeral_2_eq_2)
  show "more_row True n = ''| *... '' @ nat_toString n @ '' more* | | | |''"
    by (simp add: more_row_def three)
  show "more_row False n = ''| *... '' @ nat_toString n @ '' more* | | |''"
    by (simp add: more_row_def two)
qed

lemma more_row_cells:
  "length (filter (\<lambda>ch. ch = CHR ''|'') (more_row hasKeys n))
     = length (filter (\<lambda>ch. ch = CHR ''|'') (hd (table_header hasKeys)))"
  by (cases hasKeys) (simp_all add: more_row_text table_header_def no_bar_nat_toString)

text \<open>
  Claim C6, as amended. For statistics with a miss, of which the first ten have cells of the
  types of the data model, the lines of the summary are the table of metrics, the opening of
  the details section, the header of the table of misses, one row for each of the first ten
  misses at most, a row \<^verbatim>\<open>N more\<close> exactly when there are more than ten misses, and the closing
  of the section. The header and the rows have the column of keys if and only if one of the
  ten misses listed has a non-empty key. The row \<^verbatim>\<open>N more\<close> has as many cell separators as
  the header.
\<close>

theorem stats_lines_details:
  assumes "missedCrates st \<noteq> []" and "list_all typed_entry (take 10 (missedCrates st))"
  shows "stats_lines st backend duration =
     Returns (metric_lines st backend duration
       @ [[], ''<details>'',
          ''<summary>Cache misses ('' @ nat_toString (misses st) @ '' crates)</summary>'', []]
       @ table_header (list_ex (\<lambda>c. string_value (cache_key c) \<noteq> []) (take 10 (missedCrates st)))
       @ map (row_text (list_ex (\<lambda>c. string_value (cache_key c) \<noteq> []) (take 10 (missedCrates st))))
             (take 10 (missedCrates st))
       @ (if 10 < length (missedCrates st)
          then [more_row (list_ex (\<lambda>c. string_value (cache_key c) \<noteq> []) (take 10 (missedCrates st)))
                  (length (missedCrates st) - 10)]
          else [])
       @ [[], ''</details>''])
   \<and> length (map (row_text (list_ex (\<lambda>c. string_value (cache_key c) \<noteq> [])
                                (take 10 (missedCrates st))))
               (take 10 (missedCrates st))) = min 10 (length (missedCrates st))
   \<and> table_header True = [''| Crate | Compile time | Size | Key |'',
                            ''|-------|-------------|------|-----|'']
   \<and> table_header False = [''| Crate | Compile time | Size |'', ''|-------|-------------|------|'']
   \<and> length (filter (\<lambda>ch. ch = CHR ''|'') (more_row hasKeys n))
       = length (filter (\<lambda>ch. ch = CHR ''|'') (hd (table_header hasKeys)))"
proof (intro conjI)
  show "stats_lines st backend duration =
     Returns (metric_lines st backend duration
       @ [[], ''<details>'',
          ''<summary>Cache misses ('' @ nat_toString (misses st) @ '' crates)</summary>'', []]
       @ table_header (list_ex (\<lambda>c. string_value (cache_key c) \<noteq> []) (take 10 (missedCrates st)))
       @ map (row_text (list_ex (\<lambda>c. string_value (cache_key c) \<noteq> []) (take 10 (missedCrates st))))
             (take 10 (missedCrates st))
       @ (if 10 < length (missedCrates st)
          then [more_row (list_ex (\<lambda>c. string_value (cache_key c) \<noteq> []) (take 10 (missedCrates st)))
                  (length (missedCrates st) - 10)]
          else [])
       @ [[], ''</details>''])"
    by (rule stats_lines_typed [OF assms])
  show "length (map (row_text (list_ex (\<lambda>c. string_value (cache_key c) \<noteq> [])
                                (take 10 (missedCrates st))))
               (take 10 (missedCrates st))) = min 10 (length (missedCrates st))"
    by (simp add: min.commute)
  show "table_header True = [''| Crate | Compile time | Size | Key |'',
                            ''|-------|-------------|------|-----|'']"
    by (simp add: table_header_def)
  show "table_header False = [''| Crate | Compile time | Size |'', ''|-------|-------------|------|'']"
    by (simp add: table_header_def)
  show "length (filter (\<lambda>ch. ch = CHR ''|'') (more_row hasKeys n))
       = length (filter (\<lambda>ch. ch = CHR ''|'') (hd (table_header hasKeys)))"
    by (rule more_row_cells)
qed

theorem stats_lines_details_witness:
  "missedCrates scenario_stats \<noteq> []
   \<and> list_all typed_entry (take 10 (missedCrates scenario_stats))
   \<and> stats_lines scenario_stats ''S3'' ''12.3'' =
       Returns [''| Metric | Value |'', ''|--------|-------|'', ''| Hit rate | 90.0% |'',
                ''| Local hits | 7 |'', ''| Remote hits | 2 |'', ''| Misses | 1 |'',
                ''| Total crates | 10 |'', ''| Backend | S3 |'', ''| Duration | 12.3s |'',
                [], ''<details>'', ''<summary>Cache misses (1 crates)</summary>'', [],
                ''| Crate | Compile time | Size |'', ''|-------|-------------|------|'',
                ''| `foo` | 4.2s | 1.0 MB |'',
                [], ''</details>'']"
proof -
  have h: "missedCrates scenario_stats \<noteq> []"
    "list_all typed_entry (take 10 (missedCrates scenario_stats))"
    by (simp_all add: scenario_stats_def typed_entry_def)
  have digits: "nat_toString 7 = ''7''" "nat_toString 2 = ''2''" "nat_toString (Suc 0) = ''1''"
    "nat_toString 0 = ''0''" "nat_toString 10 = ''10''"
    by (simp_all add: nat_toString_digit nat_toString_more)
  from stats_lines_details [OF h, of "''S3''" "''12.3''", THEN conjunct1]
  have "stats_lines scenario_stats ''S3'' ''12.3'' =
       Returns [''| Metric | Value |'', ''|--------|-------|'', ''| Hit rate | 90.0% |'',
                ''| Local hits | 7 |'', ''| Remote hits | 2 |'', ''| Misses | 1 |'',
                ''| Total crates | 10 |'', ''| Backend | S3 |'', ''| Duration | 12.3s |'',
                [], ''<details>'', ''<summary>Cache misses (1 crates)</summary>'', [],
                ''| Crate | Compile time | Size |'', ''|-------|-------------|------|'',
                ''| `foo` | 4.2s | 1.0 MB |'',
                [], ''</details>'']"
    by (simp add: scenario_stats_def metric_lines_def table_header_def row_text_def digits
        formatMs_examples formatBytes_examples)
  with h show ?thesis by simp
qed

text \<open>
  The claim as first stated fails when the only miss with a key is not among the ten listed:
  the eleventh miss has a key, and the table has no column of keys.
\<close>

theorem stats_lines_details_counterexample:
  "cache_key (missedCrates eleven_misses ! 10) = JStr ''0123456789abcdef''
   \<and> and_then (stats_lines eleven_misses ''S3'' ''12.3'') (\<lambda>lines. Returns (lines ! 13))
       = Returns ''| Crate | Compile time | Size |''
   \<and> and_then (stats_lines eleven_misses ''S3'' ''12.3'') (\<lambda>lines. Returns (lines ! 25))
       = Returns ''| *... 1 more* | | |''"
proof -
  have typed: "list_all typed_entry (take 10 (missedCrates eleven_misses))"
    by (simp add: eleven_misses_def typed_entry_def plain_miss_def)
  have nonempty: "missedCrates eleven_misses \<noteq> []"
    by (simp add: eleven_misses_def)
  have keys: "\<not> list_ex (\<lambda>c. string_value (cache_key c) \<noteq> []) (take 10 (missedCrates eleven_misses))"
    by (simp add: eleven_misses_def plain_miss_def)
  have len: "length (missedCrates eleven_misses) = 11"
    by (simp add: eleven_misses_def)
  have metrics: "length (metric_lines eleven_misses ''S3'' ''12.3'') = 9"
    by (simp add: metric_lines_def eleven_misses_def)
  define rows where "rows = map (row_text False) (take 10 (missedCrates eleven_misses))"
  have rows: "length rows = 10"
    by (simp add: rows_def len)
  have lines: "stats_lines eleven_misses ''S3'' ''12.3'' =
     Returns (metric_lines eleven_misses ''S3'' ''12.3''
       @ [[], ''<details>'',
          ''<summary>Cache misses ('' @ nat_toString (misses eleven_misses) @ '' crates)</summary>'', []]
       @ table_header False @ rows @ [more_row False 1] @ [[], ''</details>''])"
    using stats_lines_typed [OF nonempty typed, of "''S3''" "''12.3''"] keys
    by (simp add: len rows_def)
  have "nat_toString (Suc 0) = ''1''"
    by (simp add: nat_toString_digit)
  then have more: "more_row False (Suc 0) = ''| *... 1 more* | | |''"
    by (simp add: more_row_text)
  show ?thesis
    by (simp add: lines nth_append metrics rows table_header_def more)
       (simp add: eleven_misses_def keyed_miss_def)
qed

section \<open>Properties of the post step\<close>

lemma try_catch_warning:
  "try_catch b (\<lambda>error. core_warning (f error)) =
     (None, snd b @ (case fst b of None \<Rightarrow> [] | Some e \<Rightarrow> [Warning (f e)]))"
  by (cases b) (simp add: try_catch_def core_warning_def split: option.split)

lemma comment_failed_returns:
  "comment_failed err =
     (None, [if includes_str (message err) ''Resource not accessible''
             then Info (''Skipping PR comment '' @ emdash
                        @ '' token lacks pull-requests: write permission'')
             else Warning (''Failed to post PR comment: '' @ message err)])"
  by (simp add: comment_failed_def core_info_def core_warning_def)

lemma push_cache_no_Failed: "Failed msg \<notin> set (snd (push_cache env))"
  by (simp add: push_cache_def Let_def split: option.split)

lemma publish_comment_no_Failed: "Failed msg \<notin> set (snd (publish_comment env st))"
  by (simp add: publish_comment_def try_catch_def comment_failed_returns
           split: sum.split option.split)

lemma run_body_no_Failed: "Failed msg \<notin> set (snd (fst (run_body env)))"
  using push_cache_no_Failed [of msg env] publish_comment_no_Failed [of msg env]
  by (auto simp: run_body_def split: prod.splits option.splits sum.splits)
     (metis snd_conv)+

lemma publish_comment_caught:
  assumes "has_data st"
    and "buildCommentBody_outcome env (the st) (backend_name env) (duration_text env) = Inr body"
    and "postOrUpdateComment_throws env body (input_token env) = Some err"
  shows "publish_comment env st =
           (None, [if includes_str (message err) ''Resource not accessible''
                   then Info (''Skipping PR comment '' @ emdash
                              @ '' token lacks pull-requests: write permission'')
                   else Warning (''Failed to post PR comment: '' @ message err)])"
  using assms by (simp add: publish_comment_def try_catch_def comment_failed_returns)

lemma run_body_after_publish:
  assumes "fst (push_cache env) = None" and "parseEvents_outcome env = Inr st"
    and "publish_comment env st = (None, l2)"
  shows "snd (fst (run_body env)) = snd (push_cache env) @ l2
       \<and> snd (run_body env) = (case build_summary env st of Inl e \<Rightarrow> None | Inr items \<Rightarrow> Some items)"
  using assms by (cases "push_cache env") (simp add: run_body_def split: sum.split)

text \<open>
  Claim C9. The post step never fails the build. Whatever the calls made by \<^verbatim>\<open>run\<close> do,
  return or throw an \<^verbatim>\<open>Error\<close>, no exception leaves \<^verbatim>\<open>run\<close> and nothing marks the step as
  failed. An exception that leaves the \<^verbatim>\<open>try\<close> block is reported as the warning
  \<^verbatim>\<open>kache post step failed: \<close> followed by its message, after the messages already logged. An
  exception of \<^verbatim>\<open>postOrUpdateComment\<close> does not leave the block: when its message contains
  \<^verbatim>\<open>Resource not accessible\<close> the skip is logged as information, otherwise the warning
  \<^verbatim>\<open>Failed to post PR comment: \<close> with the message is logged; either way the run goes on to
  the job summary, which is written when the statistics table can be built.
\<close>

theorem run_never_fails:
  "escaped (run env) = None
   \<and> (\<forall>msg. Failed msg \<notin> set (messages (run env)))
   \<and> (\<forall>e. fst (fst (run_body env)) = Some e \<longrightarrow>
          messages (run env)
            = snd (fst (run_body env)) @ [Warning (''kache post step failed: '' @ message e)])
   \<and> (\<forall>st body err.
          fst (push_cache env) = None \<and> parseEvents_outcome env = Inr st \<and> has_data st
          \<and> buildCommentBody_outcome env (the st) (backend_name env) (duration_text env) = Inr body
          \<and> postOrUpdateComment_throws env body (input_token env) = Some err \<longrightarrow>
          snd (fst (run_body env))
            = snd (push_cache env) @
              [if includes_str (message err) ''Resource not accessible''
               then Info (''Skipping PR comment '' @ emdash
                          @ '' token lacks pull-requests: write permission'')
               else Warning (''Failed to post PR comment: '' @ message err)]
          \<and> written (run env)
              = (case build_summary env st of Inl e \<Rightarrow> None | Inr items \<Rightarrow> Some items))"
proof (intro conjI allI impI)
  show "escaped (run env) = None"
    by (simp add: run_def try_catch_warning)
next
  fix msg
  show "Failed msg \<notin> set (messages (run env))"
    using run_body_no_Failed [of msg env]
    by (simp add: run_def try_catch_warning split: option.split)
next
  fix e assume "fst (fst (run_body env)) = Some e"
  then show "messages (run env)
      = snd (fst (run_body env)) @ [Warning (''kache post step failed: '' @ message e)]"
    by (simp add: run_def try_catch_warning)
next
  fix st body err
  assume h: "fst (push_cache env) = None \<and> parseEvents_outcome env = Inr st \<and> has_data st
          \<and> buildCommentBody_outcome env (the st) (backend_name env) (duration_text env) = Inr body
          \<and> postOrUpdateComment_throws env body (input_token env) = Some err"
  let ?entry = "if includes_str (message err) ''Resource not accessible''
               then Info (''Skipping PR comment '' @ emdash
                          @ '' token lacks pull-requests: write permission'')
               else Warning (''Failed to post PR comment: '' @ message err)"
  from h have p: "publish_comment env st = (None, [?entry])"
    using publish_comment_caught by blast
  from h have "fst (push_cache env) = None" and "parseEvents_outcome env = Inr st" by simp_all
  from run_body_after_publish [OF this p]
  have r: "snd (fst (run_body env)) = snd (push_cache env) @ [?entry]"
    and w: "snd (run_body env) = (case build_summary env st of Inl e \<Rightarrow> None | Inr items \<Rightarrow> Some items)"
    by simp_all
  show "snd (fst (run_body env)) = snd (push_cache env) @ [?entry]" by (rule r)
  show "written (run env) = (case build_summary env st of Inl e \<Rightarrow> None | Inr items \<Rightarrow> Some items)"
    using w by (simp add: run_def try_catch_warning)
qed

lemma includes_forbidden:
  "includes_str ''Resource not accessible by integration'' ''Resource not accessible''"
  by (simp add: includes_str_iff) (rule exI [of _ "[]"], simp)

lemma push_cache_forbidden:
  "push_cache forbidden_env = (None, [Info ''Saving cache to GitHub Actions cache...''])"
  by (simp add: push_cache_def forbidden_env_def s3Configured_def ghCache_def)


lemma has_data_scenario: "has_data (Some scenario_stats)"
  by (simp add: has_data_def scenario_stats_def)

lemma build_summary_forbidden:
  "build_summary forbidden_env (Some scenario_stats) =
     Inr [Heading ''Kache Build Cache'' 2,
          Raw (''**90.0%** hit rate '' @ emdash @ '' 9/10 crates from cache, 1 compiled''
               @ [CHR 0x0A, CHR 0x0A]),
          Raw ''table'', Raw [CHR 0x0A]]"
  by (simp add: build_summary_def has_data_scenario)
     (simp add: forbidden_env_def scenario_stats_def eval_numbers)

lemma publish_comment_forbidden:
  "publish_comment forbidden_env (Some scenario_stats) =
     (None, [Info (''Skipping PR comment '' @ emdash
                   @ '' token lacks pull-requests: write permission'')])"
  using includes_forbidden
  by (simp add: publish_comment_def has_data_scenario forbidden_env_def)
     (simp add: try_catch_def comment_failed_returns)

lemma forbidden_env_calls:
  "parseEvents_outcome forbidden_env = Inr (Some scenario_stats)"
  "summary_write_throws forbidden_env items = Some (IOError ''GITHUB_STEP_SUMMARY'')"
  by (simp_all add: forbidden_env_def)

lemma run_body_forbidden:
  "fst (fst (run_body forbidden_env)) = Some (IOError ''GITHUB_STEP_SUMMARY'')"
  by (simp add: run_body_def push_cache_forbidden forbidden_env_calls
        publish_comment_forbidden build_summary_forbidden)

theorem run_never_fails_witness:
  "escaped (run forbidden_env) = None
   \<and> Failed ''kache post step failed: GITHUB_STEP_SUMMARY'' \<notin> set (messages (run forbidden_env))
   \<and> messages (run forbidden_env)
       = [Info ''Saving cache to GitHub Actions cache...'',
          Info (''Skipping PR comment '' @ emdash @ '' token lacks pull-requests: write permission''),
          Warning ''kache post step failed: GITHUB_STEP_SUMMARY'']
   \<and> written (run forbidden_env)
       = Some [Heading ''Kache Build Cache'' 2,
               Raw (''**90.0%** hit rate '' @ emdash @ '' 9/10 crates from cache, 1 compiled''
                    @ [CHR 0x0A, CHR 0x0A]),
               Raw ''table'', Raw [CHR 0x0A]]"
proof -
  note T = run_never_fails [of forbidden_env]
  have pre: "fst (push_cache forbidden_env) = None
      \<and> parseEvents_outcome forbidden_env = Inr (Some scenario_stats)
      \<and> has_data (Some scenario_stats)
      \<and> buildCommentBody_outcome forbidden_env (the (Some scenario_stats))
          (backend_name forbidden_env) (duration_text forbidden_env) = Inr ''body''
      \<and> postOrUpdateComment_throws forbidden_env ''body'' (input_token forbidden_env)
          = Some (ApiError ''Resource not accessible by integration'')"
    by (simp add: push_cache_forbidden has_data_scenario) (simp add: forbidden_env_def)
  from T have 1: "escaped (run forbidden_env) = None" by (rule conjunct1)
  from T have 2: "Failed ''kache post step failed: GITHUB_STEP_SUMMARY''
      \<notin> set (messages (run forbidden_env))"
    by (elim conjE allE [of _ "''kache post step failed: GITHUB_STEP_SUMMARY''"])
  from T have 3: "messages (run forbidden_env)
      = snd (fst (run_body forbidden_env))
        @ [Warning (''kache post step failed: '' @ message (IOError ''GITHUB_STEP_SUMMARY''))]"
    using run_body_forbidden by blast
  from T pre have 4: "snd (fst (run_body forbidden_env))
        = snd (push_cache forbidden_env) @
          [if includes_str (message (ApiError ''Resource not accessible by integration''))
                ''Resource not accessible''
           then Info (''Skipping PR comment '' @ emdash
                      @ '' token lacks pull-requests: write permission'')
           else Warning (''Failed to post PR comment: ''
                         @ message (ApiError ''Resource not accessible by integration''))]
      \<and> written (run forbidden_env)
          = (case build_summary forbidden_env (Some scenario_stats) of
               Inl e \<Rightarrow> None | Inr items \<Rightarrow> Some items)"
    by blast
  from 4 have 5: "snd (fst (run_body forbidden_env))
      = [Info ''Saving cache to GitHub Actions cache...'',
         Info (''Skipping PR comment '' @ emdash @ '' token lacks pull-requests: write permission'')]"
    using includes_forbidden by (simp add: push_cache_forbidden)
  from 4 have 6: "written (run forbidden_env)
       = Some [Heading ''Kache Build Cache'' 2,
               Raw (''**90.0%** hit rate '' @ emdash @ '' 9/10 crates from cache, 1 compiled''
                    @ [CHR 0x0A, CHR 0x0A]),
               Raw ''table'', Raw [CHR 0x0A]]"
    by (simp add: build_summary_forbidden)
  from 3 5 have 7: "messages (run forbidden_env)
       = [Info ''Saving cache to GitHub Actions cache...'',
          Info (''Skipping PR comment '' @ emdash @ '' token lacks pull-requests: write permission''),
          Warning ''kache post step failed: GITHUB_STEP_SUMMARY'']"
    by simp
  from 1 2 7 6 show ?thesis by (intro conjI)
qed

end
